theory Spec2Isabelle
  imports Main "HOL-Library.Word"
begin

section \<open>The KVMGFX client (client/main.c)\<close>

text \<open>
  A shallow embedding of \<^verbatim>\<open>client/main.c\<close>: the two decompression functions, the
  format comparison, the presenters, the render loop, the scan code lookup and the event
  loop. Memory is modelled as byte lists, a C pointer as an offset into its buffer; an
  access outside a buffer is a \<open>fault\<close>, returned as \<open>Inl\<close>. Calls into SDL, OpenGL,
  ivshmem and spice are recorded in a trace of \<open>action\<close>s, and what those libraries
  answer is an input of the model. Each thread is modelled on its own: the fields of the
  global \<^verbatim>\<open>state\<close> change only where the modelled thread writes them.
\<close>

type_synonym u8 = "8 word"
type_synonym u32 = "32 word"

subsection \<open>The shared header\<close>

text \<open>
  \<^verbatim>\<open>KVMGFXHeader.h\<close> is not among the sources. The enumerators the code names are
  the constructors below; \<open>FRAME_TYPE_OTHER n\<close> and \<open>FRAME_COMP_OTHER n\<close> stand for a raw
  value \<open>n\<close> that is none of the named enumerators (the \<^verbatim>\<open>default:\<close> branches of the
  switches). \<open>width\<close>, \<open>height\<close> and \<open>stride\<close> are 32-bit unsigned integers, the
  type in which \<^verbatim>\<open>drawFunc_YUV420P\<close> keeps their product
  (\<^verbatim>\<open>const unsigned int pixels\<close>): the products \<^verbatim>\<open>height * stride * 3\<close> wrap
  around at \<open>2 ^ 32\<close> before they are passed on as a \<^verbatim>\<open>size_t\<close>. The other integer
  fields are only compared and passed on, and are taken as numbers. The outcome of the
  \<^verbatim>\<open>memcmp\<close> against \<^verbatim>\<open>KVMGFX_HEADER_MAGIC\<close> is the field \<open>magic_ok\<close>.
\<close>

datatype FrameType =
    FRAME_TYPE_INVALID
  | FRAME_TYPE_ARGB
  | FRAME_TYPE_RGB
  | FRAME_TYPE_XOR
  | FRAME_TYPE_YUV444P
  | FRAME_TYPE_YUV420P
  | FRAME_TYPE_ARGB10
  | FRAME_TYPE_OTHER nat

datatype FrameComp =
    FRAME_COMP_NONE
  | FRAME_COMP_BLACK_RLE
  | FRAME_COMP_OTHER nat

record KVMGFXHeader =
  magic_ok :: bool
  version :: nat
  hostID :: nat
  guestID :: nat
  frameType :: FrameType
  compType :: FrameComp
  width :: u32
  height :: u32
  stride :: u32
  mouseX :: int
  mouseY :: int

text \<open>
  What stops a function short of its return: a read or a write outside a buffer, a call
  through a \<^verbatim>\<open>NULL\<close> function pointer, a loop that never ends.
\<close>

datatype fault = ReadOutOfBounds | WriteOutOfBounds | NullCall | Diverges

subsection \<open>areFormatsSame\<close>

definition areFormatsSame :: "KVMGFXHeader \<Rightarrow> KVMGFXHeader \<Rightarrow> bool" where
  "areFormatsSame s1 s2 =
    ((frameType s1 \<noteq> FRAME_TYPE_INVALID) \<and>
     (frameType s2 \<noteq> FRAME_TYPE_INVALID) \<and>
     (version s1 = version s2) \<and>
     (frameType s1 = frameType s2) \<and>
     (compType s1 = compType s2) \<and>
     (width s1 = width s2) \<and>
     (height s1 = height s2))"

subsection \<open>The compression functions\<close>

text \<open>
  \<open>memcpy dmem d smem s n\<close> copies \<open>n\<close> bytes from offset \<open>s\<close> of \<open>smem\<close> to offset
  \<open>d\<close> of \<open>dmem\<close> and returns the new \<open>dmem\<close>. A compression function gets the
  destination and the source buffer, both pointers at offset 0, and \<open>len\<close>.
\<close>

definition memcpy :: "u8 list \<Rightarrow> nat \<Rightarrow> u8 list \<Rightarrow> nat \<Rightarrow> nat \<Rightarrow> fault + u8 list" where
  "memcpy dmem d smem s n =
    (if length smem < s + n then Inl ReadOutOfBounds
     else if length dmem < d + n then Inl WriteOutOfBounds
     else Inr (take d dmem @ take n (drop s smem) @ drop (d + n) dmem))"

definition compFunc_NONE :: "u8 list \<Rightarrow> u8 list \<Rightarrow> nat \<Rightarrow> fault + u8 list" where
  "compFunc_NONE dst src len = memcpy dst 0 src 0 len"

text \<open>
  \<^verbatim>\<open>struct RLEHeader\<close> is declared in \<^verbatim>\<open>KVMGFXHeader.h\<close>, which is not among the
  sources. Its layout is a parameter: \<^verbatim>\<open>sizeof(struct RLEHeader)\<close>, and the offset and
  the width in bytes of the field \<^verbatim>\<open>length\<close>, read little-endian (\<open>h_length\<close>). The
  arithmetic on the run length is taken without wrap-around.
\<close>

record RLEHeader_layout =
  sizeof_RLEHeader :: nat
  length_offset :: nat
  length_width :: nat

fun le_value :: "u8 list \<Rightarrow> nat" where
  "le_value [] = 0"
| "le_value (b # bs) = unat b + 256 * le_value bs"

definition h_length :: "RLEHeader_layout \<Rightarrow> u8 list \<Rightarrow> nat \<Rightarrow> nat" where
  "h_length L smem s = le_value (take (length_width L) (drop (s + length_offset L) smem))"

text \<open>
  The loop variables of \<^verbatim>\<open>compFunc_BLACK_RLE\<close>: the pixel counter \<^verbatim>\<open>i\<close>, the
  pointers \<^verbatim>\<open>dst\<close> and \<^verbatim>\<open>src\<close> as offsets, and the destination memory.
  \<open>BLACK_RLE_step\<close> is one pass through the loop body. Every pass reads the three
  bytes at \<^verbatim>\<open>src\<close>: in the test, and again in the \<^verbatim>\<open>memcpy\<close> when the test fails.
  On the run branch only the bytes of \<^verbatim>\<open>h->length\<close> are read.
\<close>

record rle_state =
  rle_i :: nat
  rle_dst :: nat
  rle_src :: nat
  rle_mem :: "u8 list"

definition BLACK_RLE_step :: "RLEHeader_layout \<Rightarrow> u8 list \<Rightarrow> rle_state \<Rightarrow> fault + rle_state" where
  "BLACK_RLE_step L smem st =
    (let s = rle_src st in
     if length smem < s + 3 then Inl ReadOutOfBounds
     else if smem ! s = 0 \<and> smem ! (s + 1) = 0 \<and> smem ! (s + 2) = 0 then
       (if length smem < s + length_offset L + length_width L then Inl ReadOutOfBounds
        else Inr (st\<lparr> rle_dst := rle_dst st + h_length L smem s * 3,
                       rle_i := rle_i st + h_length L smem s,
                       rle_src := s + sizeof_RLEHeader L \<rparr>))
     else
       (case memcpy (rle_mem st) (rle_dst st) smem s 3 of
          Inl e \<Rightarrow> Inl e
        | Inr m \<Rightarrow> Inr (st\<lparr> rle_mem := m, rle_dst := rle_dst st + 3,
                              rle_src := s + 3, rle_i := rle_i st + 1 \<rparr>)))"

text \<open>
  The loop \<^verbatim>\<open>for(size_t i = 0; i < pixels;)\<close>. A run header of length 0 in a layout
  of size 0 would repeat the same state for ever, so the loop is a partial function:
  \<open>None\<close> is the loop that does not return.
\<close>

partial_function (option) BLACK_RLE_loop ::
  "RLEHeader_layout \<Rightarrow> u8 list \<Rightarrow> nat \<Rightarrow> rle_state \<Rightarrow> (fault + rle_state) option" where
  "BLACK_RLE_loop L smem pixels st =
    (if rle_i st < pixels then
       (case BLACK_RLE_step L smem st of
          Inl e \<Rightarrow> Some (Inl e)
        | Inr st' \<Rightarrow> BLACK_RLE_loop L smem pixels st')
     else Some (Inr st))"

declare BLACK_RLE_loop.simps [code]

definition BLACK_RLE_run :: "RLEHeader_layout \<Rightarrow> u8 list \<Rightarrow> u8 list \<Rightarrow> nat \<Rightarrow> fault + rle_state" where
  "BLACK_RLE_run L dst src len =
    (let pixels = len div 3 in
     case BLACK_RLE_loop L src pixels
            \<lparr> rle_i = 0, rle_dst = 0, rle_src = 0, rle_mem = dst \<rparr> of
       None \<Rightarrow> Inl Diverges
     | Some r \<Rightarrow> r)"

definition compFunc_BLACK_RLE :: "RLEHeader_layout \<Rightarrow> u8 list \<Rightarrow> u8 list \<Rightarrow> nat \<Rightarrow> fault + u8 list" where
  "compFunc_BLACK_RLE L dst src len =
    (case BLACK_RLE_run L dst src len of
       Inl e \<Rightarrow> Inl e
     | Inr st \<Rightarrow> Inr (rle_mem st))"

subsection \<open>Traces\<close>

text \<open>
  The calls the program makes into its libraries, in the order it makes them.
  \<open>compFunc_call\<close> and \<open>drawFunc_call\<close> mark the calls through the two function
  pointers; \<open>ivshmem_wait_irq r\<close> is a call of \<^verbatim>\<open>ivshmem_wait_irq(0)\<close> that returned
  \<open>r\<close>. The function pointers are the values of \<open>CompFunc\<close> and \<open>DrawFunc\<close>, and
  \<open>None\<close> is \<^verbatim>\<open>NULL\<close>.
\<close>

datatype IVSHMEM_WAIT_RESULT =
    IVSHMEM_WAIT_RESULT_OK
  | IVSHMEM_WAIT_RESULT_TIMEOUT
  | IVSHMEM_WAIT_RESULT_ERROR

datatype SDL_PixelFormat =
    SDL_PIXELFORMAT_ARGB8888
  | SDL_PIXELFORMAT_RGB24
  | SDL_PIXELFORMAT_YV12
  | SDL_PIXELFORMAT_ARGB2101010

datatype CompFunc = CompFunc_NONE | CompFunc_BLACK_RLE

datatype DrawFunc =
    DrawFunc_ARGB10 | DrawFunc_ARGB | DrawFunc_RGB | DrawFunc_XOR
  | DrawFunc_YUV444P | DrawFunc_YUV420P

datatype action =
    ivshmem_wait_irq IVSHMEM_WAIT_RESULT
  | ivshmem_kick_irq nat
  | compFunc_call "CompFunc option" nat
  | drawFunc_call "DrawFunc option"
  | SDL_UpdateTexture nat
  | SDL_UpdateYUVTexture nat nat nat nat nat
  | SDL_UnlockTexture
  | SDL_RenderClear
  | SDL_RenderCopy
  | SDL_RenderPresent
  | glEnable_COLOR_LOGIC_OP
  | glLogicOp_XOR
  | glDisable_COLOR_LOGIC_OP
  | memset_zero nat
  | SDL_DestroyTexture
  | SDL_SetWindowSize nat nat
  | SDL_SetWindowPosition_CENTERED
  | SDL_CreateTexture SDL_PixelFormat nat nat
  | SDL_LockTexture
  | DEBUG_ERROR string
  | DEBUG_WARN string
  | SDL_SetHint_RELATIVE_MODE_WARP
  | SDL_WarpMouseInWindow int int
  | SDL_SetRelativeMouseMode bool
  | spice_mouse_mode bool
  | spice_key_down u32
  | spice_key_up u32
  | spice_mouse_press nat
  | spice_mouse_release nat
  | spice_mouse_motion int int
  | spice_mouse_position int int
  | usleep nat

subsection \<open>The presenters\<close>

text \<open>
  A presenter gets the header as it stands in shared memory, the decompression function,
  the texture memory \<^verbatim>\<open>dst\<close> and the frame \<^verbatim>\<open>src\<close>. It returns its trace and the
  new texture memory, or the fault that stopped it. The length handed to the
  decompression function and to \<^verbatim>\<open>memset\<close> is the product in 32-bit arithmetic, read
  as a number (\<open>unat\<close>).
\<close>

definition call_compFunc ::
  "RLEHeader_layout \<Rightarrow> CompFunc option \<Rightarrow> u8 list \<Rightarrow> u8 list \<Rightarrow> nat \<Rightarrow> fault + u8 list" where
  "call_compFunc L compFunc dst src len =
    (case compFunc of
       None \<Rightarrow> Inl NullCall
     | Some CompFunc_NONE \<Rightarrow> compFunc_NONE dst src len
     | Some CompFunc_BLACK_RLE \<Rightarrow> compFunc_BLACK_RLE L dst src len)"

definition memset0 :: "u8 list \<Rightarrow> nat \<Rightarrow> fault + u8 list" where
  "memset0 dst n = (if length dst < n then Inl WriteOutOfBounds else Inr (replicate n 0 @ drop n dst))"

type_synonym draw_result = "action list \<times> (fault + u8 list)"

definition drawFunc_ARGB10 ::
  "RLEHeader_layout \<Rightarrow> KVMGFXHeader \<Rightarrow> CompFunc option \<Rightarrow> u8 list \<Rightarrow> u8 list \<Rightarrow> draw_result" where
  "drawFunc_ARGB10 L shm compFunc dst src =
    ([SDL_UpdateTexture (unat (stride shm * 4)), ivshmem_kick_irq (guestID shm),
      SDL_RenderClear, SDL_RenderCopy, SDL_RenderPresent], Inr dst)"

definition drawFunc_ARGB ::
  "RLEHeader_layout \<Rightarrow> KVMGFXHeader \<Rightarrow> CompFunc option \<Rightarrow> u8 list \<Rightarrow> u8 list \<Rightarrow> draw_result" where
  "drawFunc_ARGB L shm compFunc dst src =
    (let len = unat (height shm * stride shm * 4) in
     case call_compFunc L compFunc dst src len of
       Inl e \<Rightarrow> ([compFunc_call compFunc len], Inl e)
     | Inr dst' \<Rightarrow>
         ([compFunc_call compFunc len, ivshmem_kick_irq (guestID shm),
           SDL_UnlockTexture, SDL_RenderClear, SDL_RenderCopy, SDL_RenderPresent], Inr dst'))"

definition drawFunc_RGB ::
  "RLEHeader_layout \<Rightarrow> KVMGFXHeader \<Rightarrow> CompFunc option \<Rightarrow> u8 list \<Rightarrow> u8 list \<Rightarrow> draw_result" where
  "drawFunc_RGB L shm compFunc dst src =
    (let len = unat (height shm * stride shm * 3) in
     case call_compFunc L compFunc dst src len of
       Inl e \<Rightarrow> ([compFunc_call compFunc len], Inl e)
     | Inr dst' \<Rightarrow>
         ([compFunc_call compFunc len, ivshmem_kick_irq (guestID shm),
           SDL_UnlockTexture, SDL_RenderClear, SDL_RenderCopy, SDL_RenderPresent], Inr dst'))"

definition drawFunc_XOR ::
  "RLEHeader_layout \<Rightarrow> KVMGFXHeader \<Rightarrow> CompFunc option \<Rightarrow> u8 list \<Rightarrow> u8 list \<Rightarrow> draw_result" where
  "drawFunc_XOR L shm compFunc dst src =
    (let len = unat (height shm * stride shm * 3) in
     case call_compFunc L compFunc dst src len of
       Inl e \<Rightarrow> ([glEnable_COLOR_LOGIC_OP, glLogicOp_XOR, compFunc_call compFunc len], Inl e)
     | Inr dst' \<Rightarrow>
         (case memset0 dst' len of
            Inl e \<Rightarrow>
              ([glEnable_COLOR_LOGIC_OP, glLogicOp_XOR, compFunc_call compFunc len,
                ivshmem_kick_irq (guestID shm), SDL_UnlockTexture, SDL_RenderCopy,
                SDL_RenderPresent, memset_zero len], Inl e)
          | Inr dst'' \<Rightarrow>
              ([glEnable_COLOR_LOGIC_OP, glLogicOp_XOR, compFunc_call compFunc len,
                ivshmem_kick_irq (guestID shm), SDL_UnlockTexture, SDL_RenderCopy,
                SDL_RenderPresent, memset_zero len], Inr dst'')))"

definition drawFunc_YUV444P ::
  "RLEHeader_layout \<Rightarrow> KVMGFXHeader \<Rightarrow> CompFunc option \<Rightarrow> u8 list \<Rightarrow> u8 list \<Rightarrow> draw_result" where
  "drawFunc_YUV444P L shm compFunc dst src =
    (let len = unat (height shm * stride shm * 3) in
     case call_compFunc L compFunc dst src len of
       Inl e \<Rightarrow> ([compFunc_call compFunc len], Inl e)
     | Inr dst' \<Rightarrow>
         ([compFunc_call compFunc len, ivshmem_kick_irq (guestID shm),
           SDL_UnlockTexture, SDL_RenderCopy, SDL_RenderPresent], Inr dst'))"

definition drawFunc_YUV420P ::
  "RLEHeader_layout \<Rightarrow> KVMGFXHeader \<Rightarrow> CompFunc option \<Rightarrow> u8 list \<Rightarrow> u8 list \<Rightarrow> draw_result" where
  "drawFunc_YUV420P L shm compFunc dst src =
    (let pixels = width shm * height shm in
     ([SDL_UpdateYUVTexture (unat (stride shm)) (unat pixels) (unat (stride shm div 2))
         (unat pixels + unat (pixels div 4)) (unat (stride shm div 2)),
       ivshmem_kick_irq (guestID shm),
       SDL_RenderClear, SDL_RenderCopy, SDL_RenderPresent], Inr dst))"

definition call_drawFunc ::
  "RLEHeader_layout \<Rightarrow> DrawFunc option \<Rightarrow> KVMGFXHeader \<Rightarrow> CompFunc option \<Rightarrow>
     u8 list \<Rightarrow> u8 list \<Rightarrow> draw_result" where
  "call_drawFunc L drawFunc shm compFunc dst src =
    (case drawFunc of
       None \<Rightarrow> ([], Inl NullCall)
     | Some DrawFunc_ARGB10 \<Rightarrow> drawFunc_ARGB10 L shm compFunc dst src
     | Some DrawFunc_ARGB \<Rightarrow> drawFunc_ARGB L shm compFunc dst src
     | Some DrawFunc_RGB \<Rightarrow> drawFunc_RGB L shm compFunc dst src
     | Some DrawFunc_XOR \<Rightarrow> drawFunc_XOR L shm compFunc dst src
     | Some DrawFunc_YUV444P \<Rightarrow> drawFunc_YUV444P L shm compFunc dst src
     | Some DrawFunc_YUV420P \<Rightarrow> drawFunc_YUV420P L shm compFunc dst src)"

subsection \<open>renderThread\<close>

text \<open>
  \<open>KVMGFXState\<close> holds the flags of the global \<^verbatim>\<open>state\<close>; \<open>render_state\<close> adds the
  locals of \<^verbatim>\<open>renderThread\<close> (\<open>texture\<close> is whether the pointer is not
  \<^verbatim>\<open>NULL\<close>). One \<open>frame_input\<close> is what one pass of the outer loop meets: the header
  in shared memory, the answers of \<^verbatim>\<open>ivshmem_wait_irq\<close> in order, the frame bytes
  after the header, and the memory \<^verbatim>\<open>SDL_LockTexture\<close> hands out should a texture be
  created. The SDL calls are taken to succeed.
\<close>

record KVMGFXState =
  running :: bool
  started :: bool
  windowChanged :: bool

record render_state = KVMGFXState +
  format :: KVMGFXHeader
  texture :: bool
  texPixels :: "u8 list"
  drawFunc :: "DrawFunc option"
  compFunc :: "CompFunc option"

record frame_input =
  in_shm :: KVMGFXHeader
  in_waits :: "IVSHMEM_WAIT_RESULT list"
  in_pixels :: "u8 list"
  in_texPixels :: "u8 list"

text \<open>
  How a pass or a loop ends: \<open>Next\<close>, the loop goes on (and the inputs are used up);
  \<open>Leave\<close>, the loop is left; \<open>Blocked\<close>, \<^verbatim>\<open>ivshmem_wait_irq\<close> never returns;
  \<open>Crash\<close>, a fault.
\<close>

datatype control = Next | Leave | Blocked | Crash fault

text \<open>
  The inner loop \<^verbatim>\<open>while(state.running && !ready && !error)\<close>. The result is the
  pair \<open>(ready, error)\<close> at its end.
\<close>

fun wait_loop ::
  "bool \<Rightarrow> nat \<Rightarrow> IVSHMEM_WAIT_RESULT list \<Rightarrow> action list \<times> (bool \<times> bool) option" where
  "wait_loop run gid [] = (if run then ([], None) else ([], Some (False, False)))"
| "wait_loop run gid (r # rs) =
    (if run then
       (case r of
          IVSHMEM_WAIT_RESULT_OK \<Rightarrow> ([ivshmem_wait_irq r], Some (True, False))
        | IVSHMEM_WAIT_RESULT_TIMEOUT \<Rightarrow>
            (case wait_loop run gid rs of
               (t, res) \<Rightarrow> (ivshmem_wait_irq r # ivshmem_kick_irq gid # t, res))
        | IVSHMEM_WAIT_RESULT_ERROR \<Rightarrow> ([ivshmem_wait_irq r], Some (False, True)))
     else ([], Some (False, False)))"

definition frameType_switch :: "FrameType \<Rightarrow> (SDL_PixelFormat \<times> DrawFunc) option" where
  "frameType_switch ft =
    (case ft of
       FRAME_TYPE_ARGB \<Rightarrow> Some (SDL_PIXELFORMAT_ARGB8888, DrawFunc_ARGB)
     | FRAME_TYPE_RGB \<Rightarrow> Some (SDL_PIXELFORMAT_RGB24, DrawFunc_RGB)
     | FRAME_TYPE_XOR \<Rightarrow> Some (SDL_PIXELFORMAT_RGB24, DrawFunc_XOR)
     | FRAME_TYPE_YUV444P \<Rightarrow> Some (SDL_PIXELFORMAT_RGB24, DrawFunc_YUV444P)
     | FRAME_TYPE_YUV420P \<Rightarrow> Some (SDL_PIXELFORMAT_YV12, DrawFunc_YUV420P)
     | FRAME_TYPE_ARGB10 \<Rightarrow> Some (SDL_PIXELFORMAT_ARGB2101010, DrawFunc_ARGB10)
     | _ \<Rightarrow> None)"

definition compType_switch :: "FrameComp \<Rightarrow> CompFunc option" where
  "compType_switch ct =
    (case ct of
       FRAME_COMP_NONE \<Rightarrow> Some CompFunc_NONE
     | FRAME_COMP_BLACK_RLE \<Rightarrow> Some CompFunc_BLACK_RLE
     | _ \<Rightarrow> None)"

text \<open>
  The block \<^verbatim>\<open>if (!areFormatsSame(format, *state.shm))\<close>. The flag returned is
  \<open>False\<close> where the code runs into one of the two \<^verbatim>\<open>continue\<close> statements.
\<close>

definition negotiate ::
  "KVMGFXHeader \<Rightarrow> u8 list \<Rightarrow> render_state \<Rightarrow> action list \<times> bool \<times> render_state" where
  "negotiate shm newPixels st =
    (if \<not> areFormatsSame (format st) shm then
       (let t0 = (if texture st then [SDL_DestroyTexture] else []);
            st0 = st\<lparr> texture := False \<rparr>
        in case frameType_switch (frameType shm) of
             None \<Rightarrow>
               (t0, False, st0\<lparr> format := (format st0)\<lparr> frameType := FRAME_TYPE_INVALID \<rparr> \<rparr>)
           | Some (sdlFormat, df) \<Rightarrow>
               (let st1 = st0\<lparr> drawFunc := Some df \<rparr>
                in case compType_switch (compType shm) of
                     None \<Rightarrow>
                       (t0, False,
                        st1\<lparr> format := (format st1)\<lparr> frameType := FRAME_TYPE_INVALID \<rparr> \<rparr>)
                   | Some cf \<Rightarrow>
                       (t0 @ [SDL_SetWindowSize (unat (width shm)) (unat (height shm)),
                              SDL_SetWindowPosition_CENTERED,
                              SDL_CreateTexture sdlFormat (unat (width shm)) (unat (height shm)),
                              SDL_LockTexture],
                        True,
                        st1\<lparr> compFunc := Some cf, texture := True, texPixels := newPixels,
                             format := shm, windowChanged := True \<rparr>)))
     else ([], True, st))"

definition render_iteration ::
  "RLEHeader_layout \<Rightarrow> frame_input \<Rightarrow> render_state \<Rightarrow> action list \<times> control \<times> render_state" where
  "render_iteration L inp st =
    (let shm = in_shm inp in
     if \<not> magic_ok shm then ([], Next, st)
     else if version shm \<noteq> 2 then ([], Next, st)
     else
       (case wait_loop (running st) (guestID shm) (in_waits inp) of
          (t1, None) \<Rightarrow> (t1, Blocked, st)
        | (t1, Some (ready, error)) \<Rightarrow>
            if error then (t1 @ [DEBUG_ERROR ''error during wait for host''], Leave, st)
            else
              (case negotiate shm (in_texPixels inp) st of
                 (t2, False, st') \<Rightarrow> (t1 @ t2, Next, st')
               | (t2, True, st') \<Rightarrow>
                   (case call_drawFunc L (drawFunc st') shm (compFunc st') (texPixels st')
                           (in_pixels inp) of
                      (t3, Inl e) \<Rightarrow>
                        (t1 @ t2 @ [glDisable_COLOR_LOGIC_OP, drawFunc_call (drawFunc st')] @ t3,
                         Crash e, st')
                    | (t3, Inr dst') \<Rightarrow>
                        (t1 @ t2 @ [glDisable_COLOR_LOGIC_OP, drawFunc_call (drawFunc st')] @ t3,
                         Next, st'\<lparr> texPixels := dst', started := True \<rparr>)))))"

fun render_loop ::
  "RLEHeader_layout \<Rightarrow> frame_input list \<Rightarrow> render_state \<Rightarrow> action list \<times> control \<times> render_state" where
  "render_loop L [] st = (if running st then ([], Next, st) else ([], Leave, st))"
| "render_loop L (inp # inps) st =
    (if running st then
       (case render_iteration L inp st of
          (t, Next, st') \<Rightarrow>
            (case render_loop L inps st' of (t', r) \<Rightarrow> (t @ t', r))
        | (t, c, st') \<Rightarrow> (t, c, st'))
     else ([], Leave, st))"

text \<open>
  \<^verbatim>\<open>renderThread\<close> sets five fields of \<^verbatim>\<open>format\<close>; the others keep what the stack
  held (\<open>stack\<close>). \<open>main_render\<close> is the loop \<^verbatim>\<open>while(state.running)
  renderThread(NULL);\<close> of \<^verbatim>\<open>main\<close>, with one list of inputs for each call.
\<close>

definition render_init :: "KVMGFXHeader \<Rightarrow> KVMGFXState \<Rightarrow> render_state" where
  "render_init stack g =
    \<lparr> running = running g, started = started g, windowChanged = windowChanged g,
      format = stack\<lparr> version := 1, frameType := FRAME_TYPE_INVALID,
                      width := 0, height := 0, stride := 0 \<rparr>,
      texture = False, texPixels = [], drawFunc = None, compFunc = None \<rparr>"

definition globals :: "render_state \<Rightarrow> KVMGFXState" where
  "globals st = \<lparr> running = running st, started = started st, windowChanged = windowChanged st \<rparr>"

definition renderThread ::
  "RLEHeader_layout \<Rightarrow> KVMGFXHeader \<Rightarrow> frame_input list \<Rightarrow> KVMGFXState \<Rightarrow>
     action list \<times> control \<times> KVMGFXState" where
  "renderThread L stack inps g =
    (case render_loop L inps (render_init stack g) of
       (t, Leave, st) \<Rightarrow> (t @ [SDL_DestroyTexture], Leave, globals st)
     | (t, c, st) \<Rightarrow> (t, c, globals st))"

fun main_render ::
  "RLEHeader_layout \<Rightarrow> KVMGFXHeader \<Rightarrow> frame_input list list \<Rightarrow> KVMGFXState \<Rightarrow>
     action list \<times> control \<times> KVMGFXState" where
  "main_render L stack [] g = (if running g then ([], Next, g) else ([], Leave, g))"
| "main_render L stack (inps # rest) g =
    (if running g then
       (case renderThread L stack inps g of
          (t, Leave, g') \<Rightarrow> (case main_render L stack rest g' of (t', r) \<Rightarrow> (t @ t', r))
        | (t, c, g') \<Rightarrow> (t, c, g'))
     else ([], Leave, g))"

subsection \<open>mapScancode\<close>

text \<open>
  The table \<^verbatim>\<open>usb_to_ps2\<close> is declared in \<^verbatim>\<open>kb.h\<close>, which is not among the
  sources: it is a parameter, a list of \<^verbatim>\<open>uint32_t\<close>, and
  \<^verbatim>\<open>sizeof(usb_to_ps2) / sizeof(uint32_t)\<close> is its length. The guard is
  \<^verbatim>\<open>scancode > length\<close>, so \<^verbatim>\<open>usb_to_ps2[scancode]\<close> is evaluated for every
  \<open>scancode \<le> length\<close>; the read at \<open>scancode = length\<close> is outside the table.
  The result carries whether \<^verbatim>\<open>DEBUG_WARN\<close> was called.
\<close>

definition mapScancode :: "u32 list \<Rightarrow> nat \<Rightarrow> fault + (u32 \<times> bool)" where
  "mapScancode usb_to_ps2 scancode =
    (if scancode > length usb_to_ps2 then Inr (0, True)
     else if scancode < length usb_to_ps2 then
       (let ps2 = usb_to_ps2 ! scancode in
        if ps2 = 0 then Inr (0, True) else Inr (ps2, False))
     else Inl ReadOutOfBounds)"

subsection \<open>eventThread\<close>

text \<open>
  The events the switch tells apart, with the fields it reads: scan code and repeat flag;
  scan code; \<^verbatim>\<open>wheel.y\<close>; \<^verbatim>\<open>motion.x, y, xrel, yrel\<close>; \<^verbatim>\<open>button.x, y, button\<close>.
  On a button event the code stores \<^verbatim>\<open>event.motion.x\<close> and \<^verbatim>\<open>event.motion.y\<close>,
  which lie at the offsets of \<^verbatim>\<open>event.button.x\<close> and \<^verbatim>\<open>event.button.y\<close> in SDL's
  union. \<open>ok\<close> tells, for each spice call, whether it succeeds. The difference
  \<^verbatim>\<open>(int)event.motion.x - mouseX\<close> is taken without overflow.
\<close>

datatype SDL_Event =
    SDL_QUIT
  | SDL_KEYDOWN nat bool
  | SDL_KEYUP nat
  | SDL_MOUSEWHEEL int
  | SDL_MOUSEMOTION int int int int
  | SDL_MOUSEBUTTONDOWN int int nat
  | SDL_MOUSEBUTTONUP int int nat
  | SDL_OTHER_EVENT

definition SDL_SCANCODE_SCROLLLOCK :: nat where
  "SDL_SCANCODE_SCROLLLOCK = 71"

record event_state = KVMGFXState +
  serverMode :: bool
  local_mouseX :: int
  local_mouseY :: int
  init :: bool

definition send_key ::
  "u32 list \<Rightarrow> (action \<Rightarrow> bool) \<Rightarrow> (u32 \<Rightarrow> action) \<Rightarrow> string \<Rightarrow> nat \<Rightarrow> fault + action list" where
  "send_key usb_to_ps2 ok msg err sc =
    (case mapScancode usb_to_ps2 sc of
       Inl e \<Rightarrow> Inl e
     | Inr (scancode, warned) \<Rightarrow>
         (let w = (if warned then [DEBUG_WARN (''Unable to map USB scan code: %x'' @ [CHR 0x0A])] else []) in
          if scancode = 0 then Inr w
          else if \<not> ok (msg scancode) then Inr (w @ [msg scancode, DEBUG_ERROR err])
          else Inr (w @ [msg scancode])))"

definition event_switch ::
  "u32 list \<Rightarrow> (action \<Rightarrow> bool) \<Rightarrow> KVMGFXHeader \<Rightarrow> SDL_Event \<Rightarrow> event_state \<Rightarrow>
     fault + (action list \<times> event_state)" where
  "event_switch usb_to_ps2 ok shm ev st =
    (case ev of
       SDL_KEYDOWN sc rep \<Rightarrow>
         if sc = SDL_SCANCODE_SCROLLLOCK then
           (if rep then Inr ([], st)
            else
              (let st1 = st\<lparr> serverMode := \<not> serverMode st \<rparr>;
                   t = [spice_mouse_mode (serverMode st1),
                        SDL_SetRelativeMouseMode (serverMode st1)]
               in if \<not> serverMode st1 then
                    Inr (t @ [SDL_WarpMouseInWindow (mouseX shm) (mouseY shm)],
                         st1\<lparr> local_mouseX := mouseX shm, local_mouseY := mouseY shm \<rparr>)
                  else Inr (t, st1)))
         else
           (case send_key usb_to_ps2 ok spice_key_down
                   ''SDL_KEYDOWN: failed to send message'' sc of
              Inl e \<Rightarrow> Inl e
            | Inr t \<Rightarrow> Inr (t, st))
     | SDL_KEYUP sc \<Rightarrow>
         if sc = SDL_SCANCODE_SCROLLLOCK then Inr ([], st)
         else
           (case send_key usb_to_ps2 ok spice_key_up
                   ''SDL_KEYUP: failed to send message'' sc of
              Inl e \<Rightarrow> Inl e
            | Inr t \<Rightarrow> Inr (t, st))
     | SDL_MOUSEWHEEL y \<Rightarrow>
         (let b = (if y = 1 then 4 else 5) in
          if \<not> ok (spice_mouse_press b) then
            Inr ([spice_mouse_press b,
                  DEBUG_ERROR ''SDL_MOUSEWHEEL: failed to send messages''], st)
          else if \<not> ok (spice_mouse_release b) then
            Inr ([spice_mouse_press b, spice_mouse_release b,
                  DEBUG_ERROR ''SDL_MOUSEWHEEL: failed to send messages''], st)
          else Inr ([spice_mouse_press b, spice_mouse_release b], st))
     | SDL_MOUSEMOTION x y xrel yrel \<Rightarrow>
         (let m = (if serverMode st then spice_mouse_motion xrel yrel
                   else spice_mouse_motion (x - local_mouseX st) (y - local_mouseY st)) in
          if \<not> ok m then
            Inr ([m, DEBUG_ERROR ''SDL_MOUSEMOTION: failed to send message''], st)
          else Inr ([m], st\<lparr> local_mouseX := x, local_mouseY := y \<rparr>))
     | SDL_MOUSEBUTTONDOWN x y button \<Rightarrow>
         if \<not> ok (spice_mouse_position x y) then
           Inr ([spice_mouse_position x y,
                 DEBUG_ERROR ''SDL_MOUSEBUTTONDOWN: failed to send message''], st)
         else if \<not> ok (spice_mouse_press button) then
           Inr ([spice_mouse_position x y, spice_mouse_press button,
                 DEBUG_ERROR ''SDL_MOUSEBUTTONDOWN: failed to send message''], st)
         else Inr ([spice_mouse_position x y, spice_mouse_press button],
                   st\<lparr> local_mouseX := x, local_mouseY := y \<rparr>)
     | SDL_MOUSEBUTTONUP x y button \<Rightarrow>
         if \<not> ok (spice_mouse_position x y) then
           Inr ([spice_mouse_position x y,
                 DEBUG_ERROR ''SDL_MOUSEBUTTONUP: failed to send message''], st)
         else if \<not> ok (spice_mouse_release button) then
           Inr ([spice_mouse_position x y, spice_mouse_release button,
                 DEBUG_ERROR ''SDL_MOUSEBUTTONUP: failed to send message''], st)
         else Inr ([spice_mouse_position x y, spice_mouse_release button],
                   st\<lparr> local_mouseX := x, local_mouseY := y \<rparr>)
     | _ \<Rightarrow> Inr ([], st))"

definition sync_init :: "KVMGFXHeader \<Rightarrow> event_state \<Rightarrow> action list \<times> event_state" where
  "sync_init shm st =
    (if \<not> init st then
       ([spice_mouse_mode False, SDL_WarpMouseInWindow (mouseX shm) (mouseY shm)],
        st\<lparr> local_mouseX := mouseX shm, local_mouseY := mouseY shm, init := True \<rparr>)
     else ([], st))"

definition sync_window :: "KVMGFXHeader \<Rightarrow> event_state \<Rightarrow> action list \<times> event_state" where
  "sync_window shm st =
    (if windowChanged st then
       ([SDL_WarpMouseInWindow (mouseX shm) (mouseY shm)],
        st\<lparr> local_mouseX := mouseX shm, local_mouseY := mouseY shm, windowChanged := False \<rparr>)
     else ([], st))"

text \<open>
  One pass of \<^verbatim>\<open>while(SDL_PollEvent(&event))\<close>. The flag returned says whether the
  pass ends in the \<^verbatim>\<open>break\<close> that leaves this loop. Each event comes with the header
  as it stands in shared memory when the event is handled.
\<close>

definition handle_event ::
  "u32 list \<Rightarrow> (action \<Rightarrow> bool) \<Rightarrow> KVMGFXHeader \<Rightarrow> SDL_Event \<Rightarrow> event_state \<Rightarrow>
     fault + (action list \<times> bool \<times> event_state)" where
  "handle_event usb_to_ps2 ok shm ev st =
    (if ev = SDL_QUIT then Inr ([], True, st\<lparr> running := False \<rparr>)
     else if \<not> started st then Inr ([], False, st)
     else
       (case sync_init shm st of
          (t1, st1) \<Rightarrow>
            (case sync_window shm st1 of
               (t2, st2) \<Rightarrow>
                 (case event_switch usb_to_ps2 ok shm ev st2 of
                    Inl e \<Rightarrow> Inl e
                  | Inr (t3, st3) \<Rightarrow> Inr (t1 @ t2 @ t3, False, st3)))))"

fun poll_loop ::
  "u32 list \<Rightarrow> (action \<Rightarrow> bool) \<Rightarrow> (SDL_Event \<times> KVMGFXHeader) list \<Rightarrow> event_state \<Rightarrow>
     fault + (action list \<times> event_state)" where
  "poll_loop usb_to_ps2 ok [] st = Inr ([], st)"
| "poll_loop usb_to_ps2 ok ((ev, shm) # evs) st =
    (case handle_event usb_to_ps2 ok shm ev st of
       Inl e \<Rightarrow> Inl e
     | Inr (t, True, st') \<Rightarrow> Inr (t, st')
     | Inr (t, False, st') \<Rightarrow>
         (case poll_loop usb_to_ps2 ok evs st' of
            Inl e \<Rightarrow> Inl e
          | Inr (t', st'') \<Rightarrow> Inr (t @ t', st'')))"

fun event_loop ::
  "u32 list \<Rightarrow> (action \<Rightarrow> bool) \<Rightarrow> (SDL_Event \<times> KVMGFXHeader) list list \<Rightarrow> event_state \<Rightarrow>
     fault + (action list \<times> control \<times> event_state)" where
  "event_loop usb_to_ps2 ok [] st = (if running st then Inr ([], Next, st) else Inr ([], Leave, st))"
| "event_loop usb_to_ps2 ok (evs # rest) st =
    (if running st then
       (case poll_loop usb_to_ps2 ok evs st of
          Inl e \<Rightarrow> Inl e
        | Inr (t, st') \<Rightarrow>
            (case event_loop usb_to_ps2 ok rest st' of
               Inl e \<Rightarrow> Inl e
             | Inr (t', r) \<Rightarrow> Inr (t @ [usleep 1000] @ t', r)))
     else Inr ([], Leave, st))"

definition event_init :: "KVMGFXState \<Rightarrow> event_state" where
  "event_init g =
    \<lparr> running = running g, started = started g, windowChanged = windowChanged g,
      serverMode = False, local_mouseX = 0, local_mouseY = 0, init = False \<rparr>"

definition event_globals :: "event_state \<Rightarrow> KVMGFXState" where
  "event_globals st =
    \<lparr> running = running st, started = started st, windowChanged = windowChanged st \<rparr>"

definition eventThread ::
  "u32 list \<Rightarrow> (action \<Rightarrow> bool) \<Rightarrow> (SDL_Event \<times> KVMGFXHeader) list list \<Rightarrow> KVMGFXState \<Rightarrow>
     fault + (action list \<times> control \<times> KVMGFXState)" where
  "eventThread usb_to_ps2 ok batches g =
    (case event_loop usb_to_ps2 ok batches (event_init g) of
       Inl e \<Rightarrow> Inl e
     | Inr (t, c, st) \<Rightarrow> Inr (SDL_SetHint_RELATIVE_MODE_WARP # t, c, event_globals st))"

subsection \<open>Predicates on payloads, states and traces\<close>

text \<open>
  \<open>zero_unit smem s\<close>: the three bytes at \<open>s\<close> are 0. \<open>no_zero_unit src len\<close>: none of
  the \<open>len div 3\<close> units of three bytes of \<open>src\<close> is all zero.
\<close>

definition zero_unit :: "u8 list \<Rightarrow> nat \<Rightarrow> bool" where
  "zero_unit smem s = (smem ! s = 0 \<and> smem ! (s + 1) = 0 \<and> smem ! (s + 2) = 0)"

definition no_zero_unit :: "u8 list \<Rightarrow> nat \<Rightarrow> bool" where
  "no_zero_unit src len = list_all (\<lambda>k. \<not> zero_unit src (3 * k)) [0..<len div 3]"

text \<open>\<open>timeouts n gid\<close> is the trace of \<open>n\<close> waits that time out, each followed by its kick.\<close>

fun is_kick :: "action \<Rightarrow> bool" where
  "is_kick (ivshmem_kick_irq gid) = True"
| "is_kick _ = False"

definition timeouts :: "nat \<Rightarrow> nat \<Rightarrow> action list" where
  "timeouts n gid =
     concat (replicate n [ivshmem_wait_irq IVSHMEM_WAIT_RESULT_TIMEOUT, ivshmem_kick_irq gid])"

text \<open>
  \<open>recognized h\<close>: both switches of the format block have a case for \<open>h\<close>.
  \<open>frame_action\<close>: the calls that size the window, create or fill a texture, draw or
  present. \<open>format_inv\<close> holds of every state the render loop reaches.
\<close>

definition recognized :: "KVMGFXHeader \<Rightarrow> bool" where
  "recognized h =
     (frameType_switch (frameType h) \<noteq> None \<and> compType_switch (compType h) \<noteq> None)"

fun frame_action :: "action \<Rightarrow> bool" where
  "frame_action (SDL_CreateTexture f w h) = True"
| "frame_action SDL_LockTexture = True"
| "frame_action (SDL_SetWindowSize w h) = True"
| "frame_action SDL_SetWindowPosition_CENTERED = True"
| "frame_action (compFunc_call cf len) = True"
| "frame_action (drawFunc_call df) = True"
| "frame_action (SDL_UpdateTexture p) = True"
| "frame_action (SDL_UpdateYUVTexture a b c d e) = True"
| "frame_action SDL_UnlockTexture = True"
| "frame_action SDL_RenderClear = True"
| "frame_action SDL_RenderCopy = True"
| "frame_action SDL_RenderPresent = True"
| "frame_action glEnable_COLOR_LOGIC_OP = True"
| "frame_action glLogicOp_XOR = True"
| "frame_action glDisable_COLOR_LOGIC_OP = True"
| "frame_action (memset_zero n) = True"
| "frame_action _ = False"

definition format_inv :: "render_state \<Rightarrow> bool" where
  "format_inv st = (frameType (format st) = FRAME_TYPE_INVALID \<or> recognized (format st))"

text \<open>
  \<open>gl_scan\<close> replays a trace on the state of \<^verbatim>\<open>GL_COLOR_LOGIC_OP\<close> (the boolean) and
  the presenter last called. It is \<open>None\<close> if a presenter is called while the logic
  operation is enabled, if the logic operation is enabled outside \<^verbatim>\<open>drawFunc_XOR\<close>,
  or if \<^verbatim>\<open>SDL_RenderPresent\<close> is called with the logic operation enabled outside
  \<^verbatim>\<open>drawFunc_XOR\<close>, or disabled inside it.
\<close>

type_synonym gl_state = "bool \<times> DrawFunc option"

fun gl_step :: "gl_state \<Rightarrow> action \<Rightarrow> gl_state option" where
  "gl_step (b, cur) glEnable_COLOR_LOGIC_OP =
     (if cur = Some DrawFunc_XOR then Some (True, cur) else None)"
| "gl_step (b, cur) glDisable_COLOR_LOGIC_OP = Some (False, cur)"
| "gl_step (b, cur) (drawFunc_call df) = (if b then None else Some (b, df))"
| "gl_step (b, cur) SDL_RenderPresent =
     (if b = (cur = Some DrawFunc_XOR) then Some (b, cur) else None)"
| "gl_step (b, cur) _ = Some (b, cur)"

fun gl_scan :: "gl_state \<Rightarrow> action list \<Rightarrow> gl_state option" where
  "gl_scan s [] = Some s"
| "gl_scan s (a # t) = (case gl_step s a of None \<Rightarrow> None | Some s' \<Rightarrow> gl_scan s' t)"

text \<open>
  \<open>glDisable_placed False t\<close>: in the trace \<open>t\<close>, every call of a presenter comes
  right after a \<^verbatim>\<open>glDisable(GL_COLOR_LOGIC_OP)\<close>, and every
  \<^verbatim>\<open>glDisable(GL_COLOR_LOGIC_OP)\<close> is followed at once by the call of a presenter
  (\<open>pending\<close>: the action before was the \<^verbatim>\<open>glDisable\<close>). A \<open>plain_action\<close> is
  none of the four actions \<open>gl_step\<close> looks at.
\<close>

fun is_drawFunc_call :: "action \<Rightarrow> bool" where
  "is_drawFunc_call (drawFunc_call df) = True"
| "is_drawFunc_call _ = False"

fun glDisable_placed :: "bool \<Rightarrow> action list \<Rightarrow> bool" where
  "glDisable_placed pending [] = (\<not> pending)"
| "glDisable_placed pending (a # t) =
     (if is_drawFunc_call a then pending \<and> glDisable_placed False t
      else \<not> pending \<and> glDisable_placed (a = glDisable_COLOR_LOGIC_OP) t)"

fun plain_action :: "action \<Rightarrow> bool" where
  "plain_action (drawFunc_call df) = False"
| "plain_action glDisable_COLOR_LOGIC_OP = False"
| "plain_action glEnable_COLOR_LOGIC_OP = False"
| "plain_action SDL_RenderPresent = False"
| "plain_action _ = True"

text \<open>The number of bytes \<^verbatim>\<open>drawFunc_XOR\<close> decodes and clears.\<close>

definition len3 :: "KVMGFXHeader \<Rightarrow> nat" where
  "len3 shm = unat (height shm * stride shm * 3)"

fun is_spice :: "action \<Rightarrow> bool" where
  "is_spice (spice_mouse_mode m) = True"
| "is_spice (spice_key_down c) = True"
| "is_spice (spice_key_up c) = True"
| "is_spice (spice_mouse_press b) = True"
| "is_spice (spice_mouse_release b) = True"
| "is_spice (spice_mouse_motion x y) = True"
| "is_spice (spice_mouse_position x y) = True"
| "is_spice _ = False"

fun is_key_msg :: "action \<Rightarrow> bool" where
  "is_key_msg (spice_key_down c) = True"
| "is_key_msg (spice_key_up c) = True"
| "is_key_msg _ = False"

text \<open>The key press that toggles the pointer mode.\<close>

definition toggle :: SDL_Event where
  "toggle = SDL_KEYDOWN SDL_SCANCODE_SCROLLLOCK False"

subsection \<open>Sample inputs\<close>

definition hdr0 :: KVMGFXHeader where
  "hdr0 = \<lparr> magic_ok = True, version = 2, hostID = 0, guestID = 1,
      frameType = FRAME_TYPE_RGB, compType = FRAME_COMP_NONE,
      width = 640, height = 480, stride = 640, mouseX = 0, mouseY = 0 \<rparr>"

definition hdr1 :: KVMGFXHeader where
  "hdr1 = hdr0\<lparr> width := 1, height := 1, stride := 1 \<rparr>"

definition hdr_m :: KVMGFXHeader where
  "hdr_m = hdr0\<lparr> mouseX := 10, mouseY := 20 \<rparr>"

definition packed16 :: RLEHeader_layout where
  "packed16 = \<lparr> sizeof_RLEHeader = 5, length_offset = 3, length_width = 2 \<rparr>"

definition st_start :: "u8 list \<Rightarrow> rle_state" where
  "st_start dst = \<lparr> rle_i = 0, rle_dst = 0, rle_src = 0, rle_mem = dst \<rparr>"

definition g0 :: KVMGFXState where
  "g0 = \<lparr> running = True, started = False, windowChanged = False \<rparr>"

definition frame0 :: frame_input where
  "frame0 = \<lparr> in_shm = hdr0\<lparr>width := 1, height := 1, stride := 1\<rparr>,
     in_waits = [IVSHMEM_WAIT_RESULT_TIMEOUT, IVSHMEM_WAIT_RESULT_TIMEOUT, IVSHMEM_WAIT_RESULT_TIMEOUT, IVSHMEM_WAIT_RESULT_OK],
     in_pixels = [7,7,7], in_texPixels = [0,0,0] \<rparr>"

definition error_frame :: frame_input where
  "error_frame = frame0\<lparr> in_waits := [IVSHMEM_WAIT_RESULT_ERROR] \<rparr>"

definition ready_frame :: "KVMGFXHeader \<Rightarrow> frame_input" where
  "ready_frame h = \<lparr> in_shm = h, in_waits = [IVSHMEM_WAIT_RESULT_OK],
      in_pixels = [7, 7, 7], in_texPixels = [0, 0, 0] \<rparr>"

definition st_rgb :: render_state where
  "st_rgb = \<lparr> running = True, started = True, windowChanged = True,
      format = hdr1, texture = True, texPixels = [7, 7, 7],
      drawFunc = Some DrawFunc_RGB, compFunc = Some CompFunc_NONE \<rparr>"

definition xor_frame :: frame_input where
  "xor_frame = ready_frame (hdr1\<lparr> frameType := FRAME_TYPE_XOR \<rparr>)"

definition other_frame :: frame_input where
  "other_frame = ready_frame (hdr1\<lparr> frameType := FRAME_TYPE_OTHER 7 \<rparr>)"

definition hdr_big :: KVMGFXHeader where
  "hdr_big = hdr0\<lparr> frameType := FRAME_TYPE_XOR, height := 65536, stride := 65536 \<rparr>"

definition ev_st :: event_state where
  "ev_st = \<lparr> running = True, started = True, windowChanged = False,
      serverMode = False, local_mouseX = 3, local_mouseY = 4, init = True \<rparr>"

section \<open>Properties\<close>

subsection \<open>Format comparison\<close>

text \<open>
  C2. \<open>areFormatsSame s1 s2\<close> holds exactly when neither frame type is
  \<open>FRAME_TYPE_INVALID\<close> and version, frameType, compType, width and height are pairwise
  equal. In particular it is false as soon as one of the two headers is INVALID, even
  for a header compared with itself, and true for two headers with a valid frame type
  that differ only in stride.
\<close>

theorem areFormatsSame_iff:
  "(areFormatsSame s1 s2 \<longleftrightarrow>
      frameType s1 \<noteq> FRAME_TYPE_INVALID \<and> frameType s2 \<noteq> FRAME_TYPE_INVALID \<and>
      version s1 = version s2 \<and> frameType s1 = frameType s2 \<and>
      compType s1 = compType s2 \<and> width s1 = width s2 \<and> height s1 = height s2)
   \<and> (frameType s1 = FRAME_TYPE_INVALID \<or> frameType s2 = FRAME_TYPE_INVALID
        \<longrightarrow> \<not> areFormatsSame s1 s2)
   \<and> (frameType s1 = FRAME_TYPE_INVALID \<longrightarrow> \<not> areFormatsSame s1 s1)
   \<and> (frameType s1 \<noteq> FRAME_TYPE_INVALID \<longrightarrow> areFormatsSame s1 (s1\<lparr>stride := k\<rparr>))"
  by (simp add: areFormatsSame_def)

theorem areFormatsSame_iff_witness:
  "areFormatsSame hdr0 (hdr0\<lparr>stride := 1024\<rparr>)
   \<and> \<not> areFormatsSame (hdr0\<lparr>frameType := FRAME_TYPE_INVALID\<rparr>)
         (hdr0\<lparr>frameType := FRAME_TYPE_INVALID\<rparr>)
   \<and> \<not> areFormatsSame hdr0 (hdr0\<lparr>width := 800\<rparr>)"
  using areFormatsSame_iff [of hdr0 "hdr0\<lparr>width := 800\<rparr>" 1024]
    areFormatsSame_iff [of "hdr0\<lparr>frameType := FRAME_TYPE_INVALID\<rparr>"
      "hdr0\<lparr>frameType := FRAME_TYPE_INVALID\<rparr>" 0]
  by (simp add: hdr0_def)

subsection \<open>Decompression\<close>

lemma take_Suc3: "take (3 * k + 3) xs = take (3 * k) xs @ take 3 (drop (3 * k) xs)"
  by (simp add: take_add)

lemma BLACK_RLE_step_copy:
  assumes "rle_src st + 3 \<le> length smem" "\<not> zero_unit smem (rle_src st)"
    "rle_dst st + 3 \<le> length (rle_mem st)"
  shows "BLACK_RLE_step L smem st =
    Inr (st\<lparr> rle_mem := take (rle_dst st) (rle_mem st) @ take 3 (drop (rle_src st) smem)
                    @ drop (rle_dst st + 3) (rle_mem st),
             rle_dst := rle_dst st + 3, rle_src := rle_src st + 3, rle_i := rle_i st + 1 \<rparr>)"
  using assms by (auto simp: BLACK_RLE_step_def zero_unit_def memcpy_def Let_def)

lemma BLACK_RLE_step_run:
  assumes "rle_src st + 3 \<le> length smem" "zero_unit smem (rle_src st)"
    "rle_src st + length_offset L + length_width L \<le> length smem"
  shows "BLACK_RLE_step L smem st =
    Inr (st\<lparr> rle_dst := rle_dst st + 3 * h_length L smem (rle_src st),
             rle_i := rle_i st + h_length L smem (rle_src st),
             rle_src := rle_src st + sizeof_RLEHeader L \<rparr>)"
  using assms by (auto simp: BLACK_RLE_step_def zero_unit_def Let_def mult.commute)

text \<open>
  With no all-zero unit the loop copies unit after unit: after \<open>k\<close> passes the first
  \<open>3 * k\<close> bytes of the destination are those of the source.
\<close>

lemma BLACK_RLE_loop_copy:
  assumes nz: "\<forall>k<pixels. \<not> zero_unit src (3 * k)"
    and ls: "3 * pixels \<le> length src" and ld: "3 * pixels \<le> length dst"
  shows "k \<le> pixels \<Longrightarrow>
    BLACK_RLE_loop L src pixels
      \<lparr> rle_i = k, rle_dst = 3 * k, rle_src = 3 * k,
        rle_mem = take (3 * k) src @ drop (3 * k) dst \<rparr> =
    Some (Inr \<lparr> rle_i = pixels, rle_dst = 3 * pixels, rle_src = 3 * pixels,
        rle_mem = take (3 * pixels) src @ drop (3 * pixels) dst \<rparr>)"
proof (induction "pixels - k" arbitrary: k)
  case 0
  then have "k = pixels" by simp
  then show ?case by (subst BLACK_RLE_loop.simps) simp
next
  case (Suc n)
  then have lt: "k < pixels" by simp
  let ?st = "\<lparr> rle_i = k, rle_dst = 3 * k, rle_src = 3 * k,
        rle_mem = take (3 * k) src @ drop (3 * k) dst \<rparr>"
  have a: "rle_src ?st + 3 \<le> length src" using lt ls by simp
  have b: "\<not> zero_unit src (rle_src ?st)" using nz lt by simp
  have c: "rle_dst ?st + 3 \<le> length (rle_mem ?st)" using lt ls ld by simp
  have a': "3 * k + 3 \<le> length src" and c': "3 * k + 3 \<le> length dst"
    using lt ls ld by simp_all
  have step: "BLACK_RLE_step L src ?st =
      Inr \<lparr> rle_i = Suc k, rle_dst = 3 * Suc k, rle_src = 3 * Suc k,
        rle_mem = take (3 * Suc k) src @ drop (3 * Suc k) dst \<rparr>"
    using BLACK_RLE_step_copy [OF a b c, of L] a' c' take_Suc3 [of k src]
    by (simp add: min_def add.commute)
  have ih: "BLACK_RLE_loop L src pixels
      \<lparr> rle_i = Suc k, rle_dst = 3 * Suc k, rle_src = 3 * Suc k,
        rle_mem = take (3 * Suc k) src @ drop (3 * Suc k) dst \<rparr> =
    Some (Inr \<lparr> rle_i = pixels, rle_dst = 3 * pixels, rle_src = 3 * pixels,
        rle_mem = take (3 * pixels) src @ drop (3 * pixels) dst \<rparr>)"
    using Suc.hyps(1) [of "Suc k"] Suc.hyps(2) lt by simp
  show ?case
    by (subst BLACK_RLE_loop.simps) (simp only: step ih rle_state.simps lt if_True sum.case)
qed

lemma compFunc_BLACK_RLE_copy:
  assumes "no_zero_unit src len" "len \<le> length src" "len \<le> length dst"
  shows "compFunc_BLACK_RLE L dst src len =
     Inr (take (3 * (len div 3)) src @ drop (3 * (len div 3)) dst)"
proof -
  have nz: "\<forall>k<len div 3. \<not> zero_unit src (3 * k)"
    using assms(1) by (simp add: no_zero_unit_def list_all_iff)
  have ls: "3 * (len div 3) \<le> length src" and ld: "3 * (len div 3) \<le> length dst"
    using assms(2,3) by simp_all
  show ?thesis
    using BLACK_RLE_loop_copy [OF nz ls ld, of 0 L]
    by (simp add: compFunc_BLACK_RLE_def BLACK_RLE_run_def)
qed

lemma compFunc_NONE_copy:
  assumes "n \<le> length src" "n \<le> length dst"
  shows "compFunc_NONE dst src n = Inr (take n src @ drop n dst)"
  using assms by (simp add: compFunc_NONE_def memcpy_def)

text \<open>
  C1, as the code has it. One pass over an all-zero unit whose length field lies inside
  the payload adds the run length \<open>N\<close> to the pixel counter and \<open>3 * N\<close> to the
  destination pointer, moves the source pointer past the header, and leaves the
  destination memory as it was. One pass over any other unit copies its 3 bytes and
  advances the counter by 1 and both pointers by 3. For a payload with no all-zero unit,
  \<open>compFunc_BLACK_RLE\<close> copies the \<open>3 * (len div 3)\<close> bytes of the whole units, as
  \<open>compFunc_NONE\<close> does for that length; it is \<open>compFunc_NONE\<close> for \<open>len\<close> itself
  when 3 divides \<open>len\<close>.
\<close>

theorem compFunc_BLACK_RLE_units:
  "(rle_src st + 3 \<le> length smem \<and> zero_unit smem (rle_src st) \<and>
      rle_src st + length_offset L + length_width L \<le> length smem \<longrightarrow>
        BLACK_RLE_step L smem st =
          Inr (st\<lparr> rle_dst := rle_dst st + 3 * h_length L smem (rle_src st),
                   rle_i := rle_i st + h_length L smem (rle_src st),
                   rle_src := rle_src st + sizeof_RLEHeader L \<rparr>))
   \<and> (rle_src st + 3 \<le> length smem \<and> \<not> zero_unit smem (rle_src st) \<and>
      rle_dst st + 3 \<le> length (rle_mem st) \<longrightarrow>
        BLACK_RLE_step L smem st =
          Inr (st\<lparr> rle_mem := take (rle_dst st) (rle_mem st) @ take 3 (drop (rle_src st) smem)
                          @ drop (rle_dst st + 3) (rle_mem st),
                   rle_dst := rle_dst st + 3, rle_src := rle_src st + 3,
                   rle_i := rle_i st + 1 \<rparr>))
   \<and> (no_zero_unit src len \<and> len \<le> length src \<and> len \<le> length dst \<longrightarrow>
        compFunc_BLACK_RLE L dst src len = compFunc_NONE dst src (3 * (len div 3))
        \<and> compFunc_BLACK_RLE L dst src len =
            Inr (take (3 * (len div 3)) src @ drop (3 * (len div 3)) dst)
        \<and> (3 dvd len \<longrightarrow> compFunc_BLACK_RLE L dst src len = compFunc_NONE dst src len))"
proof (intro conjI impI)
  assume "rle_src st + 3 \<le> length smem \<and> zero_unit smem (rle_src st) \<and>
      rle_src st + length_offset L + length_width L \<le> length smem"
  then show "BLACK_RLE_step L smem st =
          Inr (st\<lparr> rle_dst := rle_dst st + 3 * h_length L smem (rle_src st),
                   rle_i := rle_i st + h_length L smem (rle_src st),
                   rle_src := rle_src st + sizeof_RLEHeader L \<rparr>)"
    using BLACK_RLE_step_run by blast
next
  assume "rle_src st + 3 \<le> length smem \<and> \<not> zero_unit smem (rle_src st) \<and>
      rle_dst st + 3 \<le> length (rle_mem st)"
  then show "BLACK_RLE_step L smem st =
          Inr (st\<lparr> rle_mem := take (rle_dst st) (rle_mem st) @ take 3 (drop (rle_src st) smem)
                          @ drop (rle_dst st + 3) (rle_mem st),
                   rle_dst := rle_dst st + 3, rle_src := rle_src st + 3,
                   rle_i := rle_i st + 1 \<rparr>)"
    using BLACK_RLE_step_copy by blast
next
  assume h: "no_zero_unit src len \<and> len \<le> length src \<and> len \<le> length dst"
  then have r: "compFunc_BLACK_RLE L dst src len =
      Inr (take (3 * (len div 3)) src @ drop (3 * (len div 3)) dst)"
    using compFunc_BLACK_RLE_copy by blast
  have "3 * (len div 3) \<le> len" by simp
  with h have "3 * (len div 3) \<le> length src" "3 * (len div 3) \<le> length dst"
    by linarith+
  then have n: "compFunc_NONE dst src (3 * (len div 3)) =
      Inr (take (3 * (len div 3)) src @ drop (3 * (len div 3)) dst)"
    by (rule compFunc_NONE_copy)
  show "compFunc_BLACK_RLE L dst src len = compFunc_NONE dst src (3 * (len div 3))"
    using r n by simp
  show "compFunc_BLACK_RLE L dst src len =
      Inr (take (3 * (len div 3)) src @ drop (3 * (len div 3)) dst)" by (rule r)
  assume "3 dvd len"
  then have "3 * (len div 3) = len" by simp
  then show "compFunc_BLACK_RLE L dst src len = compFunc_NONE dst src len"
    using r n by simp
qed

theorem compFunc_BLACK_RLE_units_witness:
  "BLACK_RLE_step packed16 [0, 0, 0, 2, 0, 7, 8, 9] (st_start [9, 9, 9, 9, 9, 9, 9, 9, 9]) =
     Inr \<lparr> rle_i = 2, rle_dst = 6, rle_src = 5, rle_mem = [9, 9, 9, 9, 9, 9, 9, 9, 9] \<rparr>
   \<and> BLACK_RLE_step packed16 [7, 8, 9] (st_start [5, 5, 5, 5]) =
     Inr \<lparr> rle_i = 1, rle_dst = 3, rle_src = 3, rle_mem = [7, 8, 9, 5] \<rparr>
   \<and> compFunc_BLACK_RLE packed16 [9, 9, 9, 9, 9, 9] [1, 2, 3, 4, 5, 6] 6 =
       compFunc_NONE [9, 9, 9, 9, 9, 9] [1, 2, 3, 4, 5, 6] 6
   \<and> compFunc_NONE [9, 9, 9, 9, 9, 9] [1, 2, 3, 4, 5, 6] 6 = Inr [1, 2, 3, 4, 5, 6]
   \<and> zero_unit [0, 0, 0, 2, 0, 7, 8, 9] 0 \<and> \<not> zero_unit [7, 8, 9] 0
   \<and> no_zero_unit [1, 2, 3, 4, 5, 6] 6 \<and> (3::nat) dvd 6"
proof -
  let ?st = "st_start [9, 9, 9, 9, 9, 9, 9, 9, 9]"
  let ?sm = "[0, 0, 0, 2, 0, 7, 8, 9] :: u8 list"
  let ?src = "[1, 2, 3, 4, 5, 6] :: u8 list"
  let ?dst = "[9, 9, 9, 9, 9, 9] :: u8 list"
  have a: "rle_src ?st + 3 \<le> length ?sm \<and> zero_unit ?sm (rle_src ?st) \<and>
      rle_src ?st + length_offset packed16 + length_width packed16 \<le> length ?sm"
    by (simp add: st_start_def packed16_def zero_unit_def)
  have n: "h_length packed16 ?sm (rle_src ?st) = 2"
    by (simp add: st_start_def packed16_def h_length_def)
  have "[0..<6 div 3] = [0, 1]"
    by (simp add: upt_conv_Cons)
  then have c: "no_zero_unit ?src 6 \<and> 6 \<le> length ?src \<and> 6 \<le> length ?dst \<and> (3::nat) dvd 6"
    by (simp add: no_zero_unit_def zero_unit_def)
  have 1: "BLACK_RLE_step packed16 ?sm ?st =
     Inr \<lparr> rle_i = 2, rle_dst = 6, rle_src = 5, rle_mem = [9, 9, 9, 9, 9, 9, 9, 9, 9] \<rparr>"
    using compFunc_BLACK_RLE_units [of ?st ?sm packed16 ?src 6 ?dst] a n
    by (simp add: st_start_def packed16_def)
  have 3: "compFunc_BLACK_RLE packed16 ?dst ?src 6 = compFunc_NONE ?dst ?src 6"
    using compFunc_BLACK_RLE_units [of ?st ?sm packed16 ?src 6 ?dst] c by blast
  let ?st2 = "st_start [5, 5, 5, 5]"
  let ?sm2 = "[7, 8, 9] :: u8 list"
  have b: "rle_src ?st2 + 3 \<le> length ?sm2 \<and> \<not> zero_unit ?sm2 (rle_src ?st2) \<and>
      rle_dst ?st2 + 3 \<le> length (rle_mem ?st2)"
    by (simp add: st_start_def zero_unit_def)
  have 2: "BLACK_RLE_step packed16 ?sm2 ?st2 =
     Inr \<lparr> rle_i = 1, rle_dst = 3, rle_src = 3, rle_mem = [7, 8, 9, 5] \<rparr>"
    using compFunc_BLACK_RLE_units [of ?st2 ?sm2 packed16 ?src 6 ?dst] b
    by (simp add: st_start_def)
  have 4: "compFunc_NONE ?dst ?src 6 = Inr ?src"
    by (simp add: compFunc_NONE_def memcpy_def)
  show ?thesis using 1 2 3 4 a b c by (simp add: st_start_def)
qed

text \<open>
  The claim C1 as stated fails where 3 does not divide \<open>len\<close>: of 4 bytes with no zero
  in them, \<open>compFunc_BLACK_RLE\<close> copies one unit and leaves the fourth byte of the
  destination, which \<open>compFunc_NONE\<close> overwrites. \<^verbatim>\<open>drawFunc_ARGB\<close> calls the
  decompression function with \<^verbatim>\<open>height * stride * 4\<close>.
\<close>

theorem compFunc_BLACK_RLE_not_NONE:
  "no_zero_unit [1, 2, 3, 4] 4
   \<and> compFunc_BLACK_RLE packed16 [9, 9, 9, 9] [1, 2, 3, 4] 4 = Inr [1, 2, 3, 9]
   \<and> compFunc_NONE [9, 9, 9, 9] [1, 2, 3, 4] 4 = Inr [1, 2, 3, 4]"
  by (simp add: no_zero_unit_def zero_unit_def compFunc_BLACK_RLE_def BLACK_RLE_run_def
      BLACK_RLE_loop.simps BLACK_RLE_step_def memcpy_def compFunc_NONE_def)

text \<open>
  With a header of positive size every pass moves the source pointer forward, and a pass
  needs three bytes at the pointer: the loop returns.
\<close>

lemma BLACK_RLE_step_progress:
  assumes "BLACK_RLE_step L smem st = Inr st'" "0 < sizeof_RLEHeader L"
  shows "length smem - rle_src st' < length smem - rle_src st"
  using assms
  by (auto simp: BLACK_RLE_step_def memcpy_def Let_def split: if_splits sum.splits)

lemma BLACK_RLE_loop_returns:
  assumes "0 < sizeof_RLEHeader L"
  shows "\<exists>r. BLACK_RLE_loop L smem pixels st = Some r"
proof (induction "length smem - rle_src st" arbitrary: st rule: less_induct)
  case less
  show ?case
  proof (cases "rle_i st < pixels")
    case False
    then show ?thesis by (subst BLACK_RLE_loop.simps) simp
  next
    case True
    show ?thesis
    proof (cases "BLACK_RLE_step L smem st")
      case (Inl e)
      with True show ?thesis by (subst BLACK_RLE_loop.simps) simp
    next
      case (Inr st')
      obtain r where "BLACK_RLE_loop L smem pixels st' = Some r"
        using less [OF BLACK_RLE_step_progress [OF Inr assms]] by blast
      with True Inr show ?thesis by (subst BLACK_RLE_loop.simps) simp
    qed
  qed
qed

text \<open>
  The destination pointer is three times the pixel counter, and a unit is copied only
  while the counter is below \<open>len div 3\<close>: no write falls outside the first \<open>len\<close>
  bytes of the destination.
\<close>

lemma BLACK_RLE_step_inv:
  assumes "BLACK_RLE_step L smem st = Inr st'" "rle_dst st = 3 * rle_i st"
  shows "rle_dst st' = 3 * rle_i st' \<and> length (rle_mem st') = length (rle_mem st)"
  using assms
  by (auto simp: BLACK_RLE_step_def memcpy_def Let_def split: if_splits sum.splits)

lemma BLACK_RLE_step_write:
  assumes "rle_dst st = 3 * rle_i st" "rle_i st < pixels" "3 * pixels \<le> length (rle_mem st)"
  shows "BLACK_RLE_step L smem st \<noteq> Inl WriteOutOfBounds"
  using assms
  by (auto simp: BLACK_RLE_step_def memcpy_def Let_def split: if_splits sum.splits)

lemma BLACK_RLE_loop_writes_inside:
  assumes "BLACK_RLE_loop L smem pixels st = Some r"
  shows "rle_dst st = 3 * rle_i st \<longrightarrow> 3 * pixels \<le> length (rle_mem st) \<longrightarrow>
    r \<noteq> Inl WriteOutOfBounds"
proof (rule BLACK_RLE_loop.raw_induct
    [where P = "\<lambda>L smem pixels st r. rle_dst st = 3 * rle_i st \<longrightarrow>
       3 * pixels \<le> length (rle_mem st) \<longrightarrow> r \<noteq> Inl WriteOutOfBounds"])
  show "BLACK_RLE_loop L smem pixels st = Some r" by (rule assms)
next
  fix loop :: "RLEHeader_layout \<Rightarrow> u8 list \<Rightarrow> nat \<Rightarrow> rle_state \<Rightarrow> (fault + rle_state) option"
  fix L smem pixels st r
  assume ih: "\<And>L smem pixels st r. loop L smem pixels st = Some r \<Longrightarrow>
      rle_dst st = 3 * rle_i st \<longrightarrow> 3 * pixels \<le> length (rle_mem st) \<longrightarrow>
      r \<noteq> Inl WriteOutOfBounds"
  assume eq: "(if rle_i st < pixels
      then case BLACK_RLE_step L smem st of Inl e \<Rightarrow> Some (Inl e)
           | Inr st' \<Rightarrow> loop L smem pixels st'
      else Some (Inr st)) = Some r"
  show "rle_dst st = 3 * rle_i st \<longrightarrow> 3 * pixels \<le> length (rle_mem st) \<longrightarrow>
      r \<noteq> Inl WriteOutOfBounds"
  proof (intro impI)
    assume d: "rle_dst st = 3 * rle_i st" and m: "3 * pixels \<le> length (rle_mem st)"
    show "r \<noteq> Inl WriteOutOfBounds"
    proof (cases "rle_i st < pixels")
      case False
      with eq show ?thesis by auto
    next
      case True
      show ?thesis
      proof (cases "BLACK_RLE_step L smem st")
        case (Inl e)
        with True eq have "r = Inl e" by simp
        with Inl BLACK_RLE_step_write [OF d True m, of L smem] show ?thesis by simp
      next
        case (Inr st')
        with True eq have l: "loop L smem pixels st' = Some r" by simp
        have "rle_dst st' = 3 * rle_i st'" "length (rle_mem st') = length (rle_mem st)"
          using BLACK_RLE_step_inv [OF Inr d] by simp_all
        then show ?thesis using ih [OF l] m by simp
      qed
    qed
  qed
qed

lemma BLACK_RLE_run_writes_inside:
  assumes "len \<le> length dst"
  shows "BLACK_RLE_run L dst src len \<noteq> Inl WriteOutOfBounds"
proof (cases "BLACK_RLE_loop L src (len div 3)
    \<lparr> rle_i = 0, rle_dst = 0, rle_src = 0, rle_mem = dst \<rparr>")
  case None
  then show ?thesis by (simp add: BLACK_RLE_run_def)
next
  case (Some r)
  have "3 * (len div 3) \<le> len" by simp
  with assms have "3 * (len div 3) \<le> length dst" by linarith
  then have "r \<noteq> Inl WriteOutOfBounds"
    using BLACK_RLE_loop_writes_inside [OF Some] by simp
  then show ?thesis using Some by (simp add: BLACK_RLE_run_def)
qed

text \<open>
  C10. The claim is that \<open>compFunc_BLACK_RLE\<close> reads inside the \<open>len\<close> bytes of the
  payload and keeps its pixel counter at or below \<open>len div 3\<close>. The code checks neither
  the place of a run header nor its length. For the payload of one all-zero unit the
  length field is read behind the payload, in every layout that puts the field behind the
  three zero bytes. In the layout of three bytes and a 16-bit length: a header of length
  5 in a payload of two pixels takes the counter to 5 and the destination pointer to 15;
  and after a header of length 1, whose five bytes stand for three, the next unit is read
  across the end of the payload.
\<close>

theorem BLACK_RLE_run_unchecked_header:
  "(3 \<le> length_offset L \<and> 0 < length_width L \<longrightarrow>
      BLACK_RLE_run L dst [0, 0, 0] 3 = Inl ReadOutOfBounds)
   \<and> BLACK_RLE_run packed16 [9, 9, 9, 9, 9, 9] [0, 0, 0, 5, 0, 9] 6 =
       Inr \<lparr> rle_i = 5, rle_dst = 15, rle_src = 5, rle_mem = [9, 9, 9, 9, 9, 9] \<rparr>
   \<and> BLACK_RLE_run packed16 [9, 9, 9, 9, 9, 9] [0, 0, 0, 1, 0, 7] 6 = Inl ReadOutOfBounds"
  by (simp add: BLACK_RLE_run_def BLACK_RLE_loop.simps BLACK_RLE_step_def packed16_def
      h_length_def memcpy_def)

theorem BLACK_RLE_run_unchecked_header_witness:
  "BLACK_RLE_run packed16 [9, 9, 9] [0, 0, 0] 3 = Inl ReadOutOfBounds
   \<and> 3 \<le> length_offset packed16 \<and> 0 < length_width packed16"
  using BLACK_RLE_run_unchecked_header [of packed16 "[9, 9, 9]"]
  by (simp add: packed16_def)

subsection \<open>The wait loop\<close>

lemma wait_loop_timeouts:
  "wait_loop True gid (replicate n IVSHMEM_WAIT_RESULT_TIMEOUT @ IVSHMEM_WAIT_RESULT_OK # ws) =
     (timeouts n gid @ [ivshmem_wait_irq IVSHMEM_WAIT_RESULT_OK], Some (True, False))"
  by (induction n) (simp_all add: timeouts_def)

lemma kicks_timeouts: "length (filter is_kick (timeouts n gid)) = n"
  by (induction n) (simp_all add: timeouts_def)

lemma kicks_negotiate: "filter is_kick (fst (negotiate shm px st)) = []"
  by (simp add: negotiate_def Let_def split: option.splits prod.splits)

text \<open>The trace of a pass of the outer loop whose wait ends ready.\<close>

lemma render_iteration_trace:
  assumes "running st" "magic_ok (in_shm inp)" "version (in_shm inp) = 2"
    "in_waits inp = replicate n IVSHMEM_WAIT_RESULT_TIMEOUT @ IVSHMEM_WAIT_RESULT_OK # ws"
    "negotiate (in_shm inp) (in_texPixels inp) st = (t2, go, st')"
  shows "fst (render_iteration L inp st) =
     timeouts n (guestID (in_shm inp)) @ [ivshmem_wait_irq IVSHMEM_WAIT_RESULT_OK] @ t2 @
     (if go then
        [glDisable_COLOR_LOGIC_OP, drawFunc_call (drawFunc st')] @
        fst (call_drawFunc L (drawFunc st') (in_shm inp) (compFunc st') (texPixels st')
               (in_pixels inp))
      else [])"
  using assms
  by (simp add: render_iteration_def wait_loop_timeouts Let_def split: prod.splits sum.splits)

lemma wait_loop_kicks:
  "length (filter is_kick (fst (wait_loop True gid ws))) =
     length (takeWhile (\<lambda>r. r = IVSHMEM_WAIT_RESULT_TIMEOUT) ws)"
proof (induction ws)
  case Nil
  show ?case by simp
next
  case (Cons r rs)
  then show ?case
    by (cases r) (auto split: prod.splits)
qed

text \<open>
  C5. In the wait loop every answer \<open>IVSHMEM_WAIT_RESULT_TIMEOUT\<close> is followed by one
  kick, and the answer that ends the loop by none: the kicks of the loop are as many as
  the timeouts before the first other answer. After \<open>n\<close> timeouts and then
  \<open>IVSHMEM_WAIT_RESULT_OK\<close> the loop has kicked \<open>n\<close> times and is ready, and the pass
  goes on with the format block, which does not kick, and then the presenter.
\<close>

theorem wait_loop_one_kick_per_timeout:
  "length (filter is_kick (fst (wait_loop True gid ws))) =
     length (takeWhile (\<lambda>r. r = IVSHMEM_WAIT_RESULT_TIMEOUT) ws)
   \<and> wait_loop True gid
        (replicate n IVSHMEM_WAIT_RESULT_TIMEOUT @ IVSHMEM_WAIT_RESULT_OK # ws) =
       (timeouts n gid @ [ivshmem_wait_irq IVSHMEM_WAIT_RESULT_OK], Some (True, False))
   \<and> length (filter is_kick (timeouts n gid @ [ivshmem_wait_irq IVSHMEM_WAIT_RESULT_OK])) = n
   \<and> (running st \<and> magic_ok (in_shm inp) \<and> version (in_shm inp) = 2 \<and>
       in_waits inp =
         replicate n IVSHMEM_WAIT_RESULT_TIMEOUT @ IVSHMEM_WAIT_RESULT_OK # ws \<and>
       negotiate (in_shm inp) (in_texPixels inp) st = (t2, go, st') \<longrightarrow>
         fst (render_iteration L inp st) =
           timeouts n (guestID (in_shm inp)) @ [ivshmem_wait_irq IVSHMEM_WAIT_RESULT_OK] @ t2 @
           (if go then
              [glDisable_COLOR_LOGIC_OP, drawFunc_call (drawFunc st')] @
              fst (call_drawFunc L (drawFunc st') (in_shm inp) (compFunc st') (texPixels st')
                     (in_pixels inp))
            else [])
         \<and> filter is_kick t2 = [])"
proof (intro conjI impI)
  show "length (filter is_kick (fst (wait_loop True gid ws))) =
     length (takeWhile (\<lambda>r. r = IVSHMEM_WAIT_RESULT_TIMEOUT) ws)"
    by (rule wait_loop_kicks)
  show "wait_loop True gid
        (replicate n IVSHMEM_WAIT_RESULT_TIMEOUT @ IVSHMEM_WAIT_RESULT_OK # ws) =
       (timeouts n gid @ [ivshmem_wait_irq IVSHMEM_WAIT_RESULT_OK], Some (True, False))"
    by (rule wait_loop_timeouts)
  show "length (filter is_kick (timeouts n gid @ [ivshmem_wait_irq IVSHMEM_WAIT_RESULT_OK])) = n"
    by (simp add: kicks_timeouts)
next
  assume h: "running st \<and> magic_ok (in_shm inp) \<and> version (in_shm inp) = 2 \<and>
       in_waits inp =
         replicate n IVSHMEM_WAIT_RESULT_TIMEOUT @ IVSHMEM_WAIT_RESULT_OK # ws \<and>
       negotiate (in_shm inp) (in_texPixels inp) st = (t2, go, st')"
  then show "fst (render_iteration L inp st) =
           timeouts n (guestID (in_shm inp)) @ [ivshmem_wait_irq IVSHMEM_WAIT_RESULT_OK] @ t2 @
           (if go then
              [glDisable_COLOR_LOGIC_OP, drawFunc_call (drawFunc st')] @
              fst (call_drawFunc L (drawFunc st') (in_shm inp) (compFunc st') (texPixels st')
                     (in_pixels inp))
            else [])"
    using render_iteration_trace by blast
  show "filter is_kick t2 = []"
    using h kicks_negotiate [of "in_shm inp" "in_texPixels inp" st] by simp
qed

theorem wait_loop_one_kick_per_timeout_witness:
  "fst (render_iteration packed16 frame0 (render_init hdr0 g0)) =
     [ivshmem_wait_irq IVSHMEM_WAIT_RESULT_TIMEOUT, ivshmem_kick_irq 1,
      ivshmem_wait_irq IVSHMEM_WAIT_RESULT_TIMEOUT, ivshmem_kick_irq 1,
      ivshmem_wait_irq IVSHMEM_WAIT_RESULT_TIMEOUT, ivshmem_kick_irq 1,
      ivshmem_wait_irq IVSHMEM_WAIT_RESULT_OK,
      SDL_SetWindowSize 1 1, SDL_SetWindowPosition_CENTERED,
      SDL_CreateTexture SDL_PIXELFORMAT_RGB24 1 1, SDL_LockTexture,
      glDisable_COLOR_LOGIC_OP, drawFunc_call (Some DrawFunc_RGB),
      compFunc_call (Some CompFunc_NONE) 3, ivshmem_kick_irq 1,
      SDL_UnlockTexture, SDL_RenderClear, SDL_RenderCopy, SDL_RenderPresent]
   \<and> running (render_init hdr0 g0) \<and> magic_ok (in_shm frame0) \<and> version (in_shm frame0) = 2
   \<and> in_waits frame0 = replicate 3 IVSHMEM_WAIT_RESULT_TIMEOUT @ [IVSHMEM_WAIT_RESULT_OK]"
proof -
  let ?st = "render_init hdr0 g0"
  have n: "negotiate (in_shm frame0) (in_texPixels frame0) ?st =
      ([SDL_SetWindowSize 1 1, SDL_SetWindowPosition_CENTERED,
        SDL_CreateTexture SDL_PIXELFORMAT_RGB24 1 1, SDL_LockTexture], True,
       ?st\<lparr> texture := False, drawFunc := Some DrawFunc_RGB, compFunc := Some CompFunc_NONE,
            texture := True, texPixels := [0, 0, 0], format := in_shm frame0,
            windowChanged := True \<rparr>)"
    by (simp add: negotiate_def render_init_def hdr0_def g0_def frame0_def areFormatsSame_def
        frameType_switch_def compType_switch_def)
  have w: "in_waits frame0 =
      replicate 3 IVSHMEM_WAIT_RESULT_TIMEOUT @ IVSHMEM_WAIT_RESULT_OK # []"
    by (simp add: frame0_def eval_nat_numeral)
  have h: "running ?st \<and> magic_ok (in_shm frame0) \<and> version (in_shm frame0) = 2"
    by (simp add: render_init_def g0_def frame0_def hdr0_def)
  let ?st' = "?st\<lparr> texture := False, drawFunc := Some DrawFunc_RGB,
      compFunc := Some CompFunc_NONE, texture := True, texPixels := [0, 0, 0],
      format := in_shm frame0, windowChanged := True \<rparr>"
  have tm: "timeouts 3 (guestID (in_shm frame0)) =
      [ivshmem_wait_irq IVSHMEM_WAIT_RESULT_TIMEOUT, ivshmem_kick_irq 1,
       ivshmem_wait_irq IVSHMEM_WAIT_RESULT_TIMEOUT, ivshmem_kick_irq 1,
       ivshmem_wait_irq IVSHMEM_WAIT_RESULT_TIMEOUT, ivshmem_kick_irq 1]"
    by (simp add: timeouts_def eval_nat_numeral frame0_def hdr0_def)
  have d: "fst (call_drawFunc packed16 (drawFunc ?st') (in_shm frame0) (compFunc ?st')
        (texPixels ?st') (in_pixels frame0)) =
      [compFunc_call (Some CompFunc_NONE) 3, ivshmem_kick_irq 1,
       SDL_UnlockTexture, SDL_RenderClear, SDL_RenderCopy, SDL_RenderPresent]"
    by (simp add: call_drawFunc_def drawFunc_RGB_def call_compFunc_def compFunc_NONE_def
        memcpy_def frame0_def hdr0_def)
  have "fst (render_iteration packed16 frame0 ?st) =
      timeouts 3 (guestID (in_shm frame0)) @ [ivshmem_wait_irq IVSHMEM_WAIT_RESULT_OK] @
      [SDL_SetWindowSize 1 1, SDL_SetWindowPosition_CENTERED,
       SDL_CreateTexture SDL_PIXELFORMAT_RGB24 1 1, SDL_LockTexture] @
      [glDisable_COLOR_LOGIC_OP, drawFunc_call (drawFunc ?st')] @
      fst (call_drawFunc packed16 (drawFunc ?st') (in_shm frame0) (compFunc ?st')
        (texPixels ?st') (in_pixels frame0))"
    using wait_loop_one_kick_per_timeout [where st = ?st and inp = frame0 and n = 3
        and ws = "[]" and ?t2.0 = "[SDL_SetWindowSize 1 1, SDL_SetWindowPosition_CENTERED,
          SDL_CreateTexture SDL_PIXELFORMAT_RGB24 1 1, SDL_LockTexture]"
        and go = True and st' = ?st' and L = packed16] h w n
    by simp
  then show ?thesis
    using h w unfolding tm d by simp
qed

text \<open>
  C3. The claim is that after \<open>IVSHMEM_WAIT_RESULT_ERROR\<close> the render loop is left with
  neither decoding nor presenting, and that the running flag becomes false. The first
  half holds. The flag does not change: \<^verbatim>\<open>renderThread\<close> logs, leaves its loop, destroys
  the texture and returns with \<^verbatim>\<open>state.running\<close> still set, and the loop in
  \<^verbatim>\<open>main\<close> calls it again.
\<close>

theorem renderThread_wait_error_keeps_running:
  "running g \<and> magic_ok (in_shm inp) \<and> version (in_shm inp) = 2 \<and>
   in_waits inp = replicate n IVSHMEM_WAIT_RESULT_TIMEOUT @ IVSHMEM_WAIT_RESULT_ERROR # ws \<longrightarrow>
     renderThread L stack (inp # inps) g =
       (timeouts n (guestID (in_shm inp)) @
        [ivshmem_wait_irq IVSHMEM_WAIT_RESULT_ERROR,
         DEBUG_ERROR ''error during wait for host'', SDL_DestroyTexture], Leave, g)
     \<and> main_render L stack ((inp # inps) # rest) g =
         (case main_render L stack rest g of
            (t', r) \<Rightarrow>
              ((timeouts n (guestID (in_shm inp)) @
                [ivshmem_wait_irq IVSHMEM_WAIT_RESULT_ERROR,
                 DEBUG_ERROR ''error during wait for host'', SDL_DestroyTexture]) @ t', r))"
proof (intro impI)
  assume h: "running g \<and> magic_ok (in_shm inp) \<and> version (in_shm inp) = 2 \<and>
   in_waits inp = replicate n IVSHMEM_WAIT_RESULT_TIMEOUT @ IVSHMEM_WAIT_RESULT_ERROR # ws"
  have w: "wait_loop True gid
      (replicate n IVSHMEM_WAIT_RESULT_TIMEOUT @ IVSHMEM_WAIT_RESULT_ERROR # ws) =
      (timeouts n gid @ [ivshmem_wait_irq IVSHMEM_WAIT_RESULT_ERROR], Some (False, True))"
    for gid
    by (induction n) (simp_all add: timeouts_def)
  have it: "render_iteration L inp (render_init stack g) =
      (timeouts n (guestID (in_shm inp)) @
        [ivshmem_wait_irq IVSHMEM_WAIT_RESULT_ERROR,
         DEBUG_ERROR ''error during wait for host''], Leave, render_init stack g)"
    using h by (simp add: render_iteration_def w render_init_def)
  have g: "globals (render_init stack g) = g"
    by (simp add: globals_def render_init_def)
  have r: "renderThread L stack (inp # inps) g =
       (timeouts n (guestID (in_shm inp)) @
        [ivshmem_wait_irq IVSHMEM_WAIT_RESULT_ERROR,
         DEBUG_ERROR ''error during wait for host'', SDL_DestroyTexture], Leave, g)"
    using h it g by (simp add: renderThread_def render_init_def)
  show "renderThread L stack (inp # inps) g =
       (timeouts n (guestID (in_shm inp)) @
        [ivshmem_wait_irq IVSHMEM_WAIT_RESULT_ERROR,
         DEBUG_ERROR ''error during wait for host'', SDL_DestroyTexture], Leave, g)
     \<and> main_render L stack ((inp # inps) # rest) g =
         (case main_render L stack rest g of
            (t', r) \<Rightarrow>
              ((timeouts n (guestID (in_shm inp)) @
                [ivshmem_wait_irq IVSHMEM_WAIT_RESULT_ERROR,
                 DEBUG_ERROR ''error during wait for host'', SDL_DestroyTexture]) @ t', r))"
    using h r by simp
qed

theorem renderThread_wait_error_keeps_running_witness:
  "main_render packed16 hdr0 [[error_frame], [error_frame]] g0 =
     ([ivshmem_wait_irq IVSHMEM_WAIT_RESULT_ERROR,
       DEBUG_ERROR ''error during wait for host'', SDL_DestroyTexture,
       ivshmem_wait_irq IVSHMEM_WAIT_RESULT_ERROR,
       DEBUG_ERROR ''error during wait for host'', SDL_DestroyTexture], Next, g0)
   \<and> running g0 \<and> magic_ok (in_shm error_frame) \<and> version (in_shm error_frame) = 2
   \<and> in_waits error_frame = [IVSHMEM_WAIT_RESULT_ERROR]"
proof -
  have h: "running g0 \<and> magic_ok (in_shm error_frame) \<and> version (in_shm error_frame) = 2 \<and>
      in_waits error_frame =
        replicate 0 IVSHMEM_WAIT_RESULT_TIMEOUT @ IVSHMEM_WAIT_RESULT_ERROR # []"
    by (simp add: g0_def error_frame_def frame0_def hdr0_def)
  show ?thesis
    using renderThread_wait_error_keeps_running [of g0 error_frame 0 "[]" packed16 hdr0 "[]"
        "[[error_frame]]"]
      renderThread_wait_error_keeps_running [of g0 error_frame 0 "[]" packed16 hdr0 "[]" "[]"]
      h
    by (simp add: timeouts_def)
qed

subsection \<open>Unrecognized formats\<close>

lemma wait_loop_quiet: "list_all (\<lambda>a. \<not> frame_action a) (fst (wait_loop run gid ws))"
proof (induction ws)
  case Nil
  show ?case by simp
next
  case (Cons r rs)
  then show ?case by (cases r) (auto split: prod.splits)
qed

lemma negotiate_unrecognized:
  assumes "format_inv st" "\<not> recognized shm"
  shows "\<exists>st'. negotiate shm px st = ((if texture st then [SDL_DestroyTexture] else []), False, st')
    \<and> frameType (format st') = FRAME_TYPE_INVALID \<and> \<not> texture st'
    \<and> texPixels st' = texPixels st \<and> started st' = started st \<and> running st' = running st"
proof -
  have "\<not> areFormatsSame (format st) shm"
    using assms by (auto simp: format_inv_def recognized_def areFormatsSame_def)
  then show ?thesis
    using assms(2)
    by (auto simp: negotiate_def recognized_def Let_def split: option.splits)
qed

lemma negotiate_inv:
  assumes "format_inv st" "negotiate shm px st = (t, go, st')"
  shows "format_inv st'"
  using assms
  by (auto simp: negotiate_def format_inv_def recognized_def Let_def
      split: if_splits option.splits)

lemma render_iteration_inv:
  assumes "format_inv st" "render_iteration L inp st = (t, c, st')"
  shows "format_inv st'"
proof -
  have k: "format_inv (s\<lparr> texPixels := d, started := True \<rparr>) = format_inv s" for s d
    by (simp add: format_inv_def)
  show ?thesis
    using assms negotiate_inv [of st "in_shm inp" "in_texPixels inp"]
    by (auto simp: render_iteration_def Let_def k
        split: if_splits prod.splits option.splits sum.splits bool.splits)
qed

lemma render_loop_inv:
  "format_inv st \<Longrightarrow> render_loop L inps st = (t, c, st') \<Longrightarrow> format_inv st'"
proof (induction inps arbitrary: st t c st')
  case Nil
  then show ?case by (auto split: if_splits)
next
  case (Cons inp inps)
  show ?case
  proof (cases "running st")
    case False
    with Cons.prems show ?thesis by simp
  next
    case True
    obtain t1 c1 st1 where it: "render_iteration L inp st = (t1, c1, st1)"
      by (cases "render_iteration L inp st") auto
    have inv1: "format_inv st1" using render_iteration_inv [OF Cons.prems(1) it] .
    show ?thesis
    proof (cases c1)
      case Next
      obtain t2 c2 st2 where lp: "render_loop L inps st1 = (t2, c2, st2)"
        by (cases "render_loop L inps st1") auto
      with Cons.prems(2) True it Next have "st' = st2" by simp
      with Cons.IH [OF inv1 lp] show ?thesis by simp
    next
      case Leave
      with Cons.prems(2) True it inv1 show ?thesis by simp
    next
      case Blocked
      with Cons.prems(2) True it inv1 show ?thesis by simp
    next
      case (Crash e)
      with Cons.prems(2) True it inv1 show ?thesis by simp
    qed
  qed
qed

lemma render_loop_Next_running:
  "render_loop L inps st = (t, Next, st') \<Longrightarrow> running st'"
proof (induction inps arbitrary: st t)
  case Nil
  then show ?case by (auto split: if_splits)
next
  case (Cons inp inps)
  then show ?case
    by (auto split: if_splits prod.splits control.splits)
qed

lemma render_init_inv: "format_inv (render_init stack g)"
  by (simp add: format_inv_def render_init_def)

lemma render_iteration_deferred:
  assumes "frameType (format st) = FRAME_TYPE_INVALID" "\<not> recognized (in_shm inp)"
    "render_iteration L inp st = (t, c, st')"
  shows "list_all (\<lambda>a. \<not> frame_action a) t \<and> frameType (format st') = FRAME_TYPE_INVALID
    \<and> (\<forall>e. c \<noteq> Crash e)"
proof -
  have inv: "format_inv st" using assms(1) by (simp add: format_inv_def)
  obtain st2 where n: "negotiate (in_shm inp) (in_texPixels inp) st =
      ((if texture st then [SDL_DestroyTexture] else []), False, st2)"
    and f: "frameType (format st2) = FRAME_TYPE_INVALID"
    using negotiate_unrecognized [OF inv assms(2)] by blast
  have q: "list_all (\<lambda>a. \<not> frame_action a) (fst (wait_loop (running st) (guestID (in_shm inp)) (in_waits inp)))"
    by (rule wait_loop_quiet)
  show ?thesis
    using assms(1,3) n f q
    by (auto simp: render_iteration_def Let_def split: if_splits prod.splits option.splits)
qed

lemma render_loop_deferred:
  "frameType (format st) = FRAME_TYPE_INVALID \<Longrightarrow>
   list_all (\<lambda>i. \<not> recognized (in_shm i)) inps \<Longrightarrow>
   render_loop L inps st = (t, c, st') \<Longrightarrow>
   list_all (\<lambda>a. \<not> frame_action a) t \<and> frameType (format st') = FRAME_TYPE_INVALID
     \<and> (\<forall>e. c \<noteq> Crash e)"
proof (induction inps arbitrary: st t c st')
  case Nil
  then show ?case by (auto split: if_splits)
next
  case (Cons inp inps)
  show ?case
  proof (cases "running st")
    case False
    with Cons.prems show ?thesis by simp
  next
    case True
    obtain t1 c1 st1 where it: "render_iteration L inp st = (t1, c1, st1)"
      by (cases "render_iteration L inp st") auto
    have u: "\<not> recognized (in_shm inp)" and us: "list_all (\<lambda>i. \<not> recognized (in_shm i)) inps"
      using Cons.prems(2) by simp_all
    have d: "list_all (\<lambda>a. \<not> frame_action a) t1 \<and> frameType (format st1) = FRAME_TYPE_INVALID
        \<and> (\<forall>e. c1 \<noteq> Crash e)"
      using render_iteration_deferred [OF Cons.prems(1) u it] .
    show ?thesis
    proof (cases c1)
      case Next
      obtain t2 c2 st2 where lp: "render_loop L inps st1 = (t2, c2, st2)"
        by (cases "render_loop L inps st1") auto
      have e: "t = t1 @ t2" "c = c2" "st' = st2"
        using Cons.prems(3) True it Next lp by simp_all
      have "list_all (\<lambda>a. \<not> frame_action a) t2 \<and> frameType (format st2) = FRAME_TYPE_INVALID
        \<and> (\<forall>e. c2 \<noteq> Crash e)"
        using Cons.IH [OF _ us lp] d by blast
      with d e show ?thesis by simp
    next
      case Leave
      with Cons.prems(3) True it d show ?thesis by auto
    next
      case Blocked
      with Cons.prems(3) True it d show ?thesis by auto
    next
      case (Crash e)
      with d show ?thesis by simp
    qed
  qed
qed

text \<open>
  C4. Let the render loop have reached a state \<open>st\<close>, and let the next pass find a valid
  header whose frame type or compression type has no case in the switches, and a wait
  that ends ready. Then the pass does nothing but wait and destroy the texture it had:
  the cached frame type is \<open>FRAME_TYPE_INVALID\<close> afterwards, there is no texture, the
  pass ends without an error and the loop goes on. As long as the headers that follow
  are not recognized either, no pass sizes the window, creates a texture, decodes or
  presents, none ends in a fault, and the cached frame type stays
  \<open>FRAME_TYPE_INVALID\<close>.
\<close>

theorem unrecognized_format_deferred:
  "render_loop L pre (render_init stack g) = (t0, Next, st) \<and>
   magic_ok (in_shm inp) \<and> version (in_shm inp) = 2 \<and>
   in_waits inp = replicate n IVSHMEM_WAIT_RESULT_TIMEOUT @ IVSHMEM_WAIT_RESULT_OK # ws \<and>
   \<not> recognized (in_shm inp) \<and>
   list_all (\<lambda>i. \<not> recognized (in_shm i)) inps \<longrightarrow>
   (\<exists>st'. render_iteration L inp st =
        (timeouts n (guestID (in_shm inp)) @ [ivshmem_wait_irq IVSHMEM_WAIT_RESULT_OK] @
         (if texture st then [SDL_DestroyTexture] else []), Next, st')
      \<and> frameType (format st') = FRAME_TYPE_INVALID \<and> \<not> texture st'
      \<and> texPixels st' = texPixels st \<and> started st' = started st
      \<and> (\<forall>t c st''. render_loop L inps st' = (t, c, st'') \<longrightarrow>
            list_all (\<lambda>a. \<not> frame_action a) t \<and>
            frameType (format st'') = FRAME_TYPE_INVALID \<and> (\<forall>e. c \<noteq> Crash e)))"
proof (intro impI)
  assume h: "render_loop L pre (render_init stack g) = (t0, Next, st) \<and>
   magic_ok (in_shm inp) \<and> version (in_shm inp) = 2 \<and>
   in_waits inp = replicate n IVSHMEM_WAIT_RESULT_TIMEOUT @ IVSHMEM_WAIT_RESULT_OK # ws \<and>
   \<not> recognized (in_shm inp) \<and>
   list_all (\<lambda>i. \<not> recognized (in_shm i)) inps"
  then have reach: "render_loop L pre (render_init stack g) = (t0, Next, st)" by simp
  have run: "running st" using render_loop_Next_running [OF reach] .
  have inv: "format_inv st" using render_loop_inv [OF render_init_inv reach] .
  obtain st' where n: "negotiate (in_shm inp) (in_texPixels inp) st =
      ((if texture st then [SDL_DestroyTexture] else []), False, st')"
    and p: "frameType (format st') = FRAME_TYPE_INVALID" "\<not> texture st'"
      "texPixels st' = texPixels st" "started st' = started st"
    using negotiate_unrecognized [of st "in_shm inp" "in_texPixels inp"] inv h by blast
  have it: "render_iteration L inp st =
        (timeouts n (guestID (in_shm inp)) @ [ivshmem_wait_irq IVSHMEM_WAIT_RESULT_OK] @
         (if texture st then [SDL_DestroyTexture] else []), Next, st')"
    using h run n by (simp add: render_iteration_def wait_loop_timeouts)
  have later: "\<forall>t c st''. render_loop L inps st' = (t, c, st'') \<longrightarrow>
            list_all (\<lambda>a. \<not> frame_action a) t \<and>
            frameType (format st'') = FRAME_TYPE_INVALID \<and> (\<forall>e. c \<noteq> Crash e)"
    using render_loop_deferred [OF p(1)] h by blast
  show "\<exists>st'. render_iteration L inp st =
        (timeouts n (guestID (in_shm inp)) @ [ivshmem_wait_irq IVSHMEM_WAIT_RESULT_OK] @
         (if texture st then [SDL_DestroyTexture] else []), Next, st')
      \<and> frameType (format st') = FRAME_TYPE_INVALID \<and> \<not> texture st'
      \<and> texPixels st' = texPixels st \<and> started st' = started st
      \<and> (\<forall>t c st''. render_loop L inps st' = (t, c, st'') \<longrightarrow>
            list_all (\<lambda>a. \<not> frame_action a) t \<and>
            frameType (format st'') = FRAME_TYPE_INVALID \<and> (\<forall>e. c \<noteq> Crash e))"
    using it p later by blast
qed

lemma reach_st_rgb:
  "render_loop packed16 [ready_frame hdr1] (render_init hdr0 g0) =
     ([ivshmem_wait_irq IVSHMEM_WAIT_RESULT_OK, SDL_SetWindowSize 1 1,
       SDL_SetWindowPosition_CENTERED, SDL_CreateTexture SDL_PIXELFORMAT_RGB24 1 1,
       SDL_LockTexture, glDisable_COLOR_LOGIC_OP, drawFunc_call (Some DrawFunc_RGB),
       compFunc_call (Some CompFunc_NONE) 3, ivshmem_kick_irq 1, SDL_UnlockTexture,
       SDL_RenderClear, SDL_RenderCopy, SDL_RenderPresent], Next, st_rgb)"
  by (simp add: render_iteration_def ready_frame_def hdr1_def hdr0_def render_init_def g0_def
      negotiate_def areFormatsSame_def frameType_switch_def compType_switch_def
      call_drawFunc_def drawFunc_RGB_def call_compFunc_def compFunc_NONE_def memcpy_def
      st_rgb_def)

theorem unrecognized_format_deferred_witness:
  "render_loop packed16
     [ready_frame (hdr1\<lparr> frameType := FRAME_TYPE_OTHER 7 \<rparr>),
      ready_frame (hdr1\<lparr> compType := FRAME_COMP_OTHER 2 \<rparr>)] st_rgb =
     ([ivshmem_wait_irq IVSHMEM_WAIT_RESULT_OK, SDL_DestroyTexture,
       ivshmem_wait_irq IVSHMEM_WAIT_RESULT_OK], Next,
      st_rgb\<lparr> texture := False,
              format := hdr1\<lparr> frameType := FRAME_TYPE_INVALID \<rparr> \<rparr>)
   \<and> snd (render_loop packed16 [ready_frame hdr1] (render_init hdr0 g0)) = (Next, st_rgb)
   \<and> \<not> recognized (hdr1\<lparr> frameType := FRAME_TYPE_OTHER 7 \<rparr>)
   \<and> \<not> recognized (hdr1\<lparr> compType := FRAME_COMP_OTHER 2 \<rparr>)"
proof -
  let ?i1 = "ready_frame (hdr1\<lparr> frameType := FRAME_TYPE_OTHER 7 \<rparr>)"
  let ?i2 = "ready_frame (hdr1\<lparr> compType := FRAME_COMP_OTHER 2 \<rparr>)"
  have h: "magic_ok (in_shm ?i1) \<and> version (in_shm ?i1) = 2 \<and>
      in_waits ?i1 = replicate 0 IVSHMEM_WAIT_RESULT_TIMEOUT @ IVSHMEM_WAIT_RESULT_OK # [] \<and>
      \<not> recognized (in_shm ?i1) \<and> list_all (\<lambda>i. \<not> recognized (in_shm i)) [?i2]"
    by (simp add: ready_frame_def hdr1_def hdr0_def recognized_def frameType_switch_def
        compType_switch_def)
  obtain st' where
    it: "render_iteration packed16 ?i1 st_rgb =
        (timeouts 0 (guestID (in_shm ?i1)) @ [ivshmem_wait_irq IVSHMEM_WAIT_RESULT_OK] @
         (if texture st_rgb then [SDL_DestroyTexture] else []), Next, st')"
    and f: "frameType (format st') = FRAME_TYPE_INVALID"
    using unrecognized_format_deferred [of packed16 "[ready_frame hdr1]" hdr0 g0 _ st_rgb ?i1 0
        "[]" "[?i2]"] reach_st_rgb h
    by blast
  have st': "st' = st_rgb\<lparr> texture := False,
              format := hdr1\<lparr> frameType := FRAME_TYPE_INVALID \<rparr> \<rparr>"
    using it
    by (simp add: render_iteration_def ready_frame_def hdr1_def hdr0_def st_rgb_def
      negotiate_def areFormatsSame_def frameType_switch_def compType_switch_def)
  have i2: "render_iteration packed16 ?i2 st' =
      ([ivshmem_wait_irq IVSHMEM_WAIT_RESULT_OK], Next, st')"
    unfolding st'
    by (simp add: render_iteration_def ready_frame_def hdr1_def hdr0_def st_rgb_def
      negotiate_def areFormatsSame_def frameType_switch_def compType_switch_def)
  have r: "running st_rgb" "running st'" "texture st_rgb"
    unfolding st' by (simp_all add: st_rgb_def)
  have u: "\<not> recognized (hdr1\<lparr> frameType := FRAME_TYPE_OTHER 7 \<rparr>)
      \<and> \<not> recognized (hdr1\<lparr> compType := FRAME_COMP_OTHER 2 \<rparr>)"
    using h by (simp add: ready_frame_def)
  show ?thesis
    using it i2 r st' u reach_st_rgb by (simp add: timeouts_def)
qed

subsection \<open>The XOR presenter\<close>

lemma gl_scan_append:
  "gl_scan s (t @ t') = (case gl_scan s t of None \<Rightarrow> None | Some s' \<Rightarrow> gl_scan s' t')"
  by (induction t arbitrary: s) (auto split: option.splits)

lemma gl_scan_plain: "list_all plain_action t \<Longrightarrow> gl_scan s t = Some s"
proof (induction t)
  case Nil
  show ?case by simp
next
  case (Cons a t)
  then show ?case by (cases a; cases s) simp_all
qed

lemma glDisable_placed_plain:
  "list_all plain_action t \<Longrightarrow> glDisable_placed False (t @ t') = glDisable_placed False t'"
proof (induction t)
  case Nil
  show ?case by simp
next
  case (Cons a t)
  then show ?case by (cases a) simp_all
qed

lemma plain_wait_loop: "list_all plain_action (fst (wait_loop run gid ws))"
proof (induction ws)
  case Nil
  show ?case by simp
next
  case (Cons r rs)
  then show ?case by (cases r) (auto split: prod.splits)
qed

lemma plain_negotiate: "list_all plain_action (fst (negotiate shm px st))"
  by (simp add: negotiate_def Let_def split: option.splits prod.splits)

lemma call_drawFunc_no_call:
  "list_all (\<lambda>a. \<not> is_drawFunc_call a \<and> a \<noteq> glDisable_COLOR_LOGIC_OP)
     (fst (call_drawFunc L df shm cf dst src))"
proof (cases df)
  case None
  then show ?thesis by (simp add: call_drawFunc_def)
next
  case (Some d)
  then show ?thesis
    by (cases d)
      (auto simp: call_drawFunc_def drawFunc_ARGB10_def drawFunc_ARGB_def drawFunc_RGB_def
        drawFunc_XOR_def drawFunc_YUV444P_def drawFunc_YUV420P_def Let_def
        split: sum.splits)
qed

lemma glDisable_placed_quiet:
  "list_all (\<lambda>a. \<not> is_drawFunc_call a \<and> a \<noteq> glDisable_COLOR_LOGIC_OP) t \<Longrightarrow>
   glDisable_placed False (t @ t') = glDisable_placed False t'"
  by (induction t) simp_all

lemma gl_scan_call_drawFunc:
  "\<exists>b. gl_scan (False, df) (fst (call_drawFunc L df shm cf dst src)) = Some (b, df)"
proof (cases df)
  case None
  then show ?thesis by (auto simp: call_drawFunc_def)
next
  case (Some d)
  then show ?thesis
    by (cases d)
      (auto simp: call_drawFunc_def drawFunc_ARGB10_def drawFunc_ARGB_def drawFunc_RGB_def
        drawFunc_XOR_def drawFunc_YUV444P_def drawFunc_YUV420P_def Let_def
        split: sum.splits)
qed

text \<open>
  The trace of a pass of the outer loop: plain actions alone, or plain actions, the
  \<^verbatim>\<open>glDisable\<close>, the call of the presenter and the presenter's own trace.
\<close>

lemma render_iteration_parts:
  obtains (plain) t1 where
      "list_all plain_action t1" "fst (render_iteration L inp st) = t1"
  | (draw) t1 df t3 b where
      "list_all plain_action t1"
      "list_all (\<lambda>a. \<not> is_drawFunc_call a \<and> a \<noteq> glDisable_COLOR_LOGIC_OP) t3"
      "gl_scan (False, df) t3 = Some (b, df)"
      "fst (render_iteration L inp st) =
         t1 @ [glDisable_COLOR_LOGIC_OP, drawFunc_call df] @ t3"
proof -
  obtain t2 go st' where n: "negotiate (in_shm inp) (in_texPixels inp) st = (t2, go, st')"
    by (cases "negotiate (in_shm inp) (in_texPixels inp) st") auto
  have p2: "list_all plain_action t2"
    using plain_negotiate [of "in_shm inp" "in_texPixels inp" st] n by simp
  obtain t1 r where w: "wait_loop (running st) (guestID (in_shm inp)) (in_waits inp) = (t1, r)"
    by (cases "wait_loop (running st) (guestID (in_shm inp)) (in_waits inp)") auto
  have p1: "list_all plain_action t1"
    using plain_wait_loop [of "running st" "guestID (in_shm inp)" "in_waits inp"] w by simp
  obtain t3 res where d: "call_drawFunc L (drawFunc st') (in_shm inp) (compFunc st')
      (texPixels st') (in_pixels inp) = (t3, res)"
    by (cases "call_drawFunc L (drawFunc st') (in_shm inp) (compFunc st')
      (texPixels st') (in_pixels inp)") auto
  have q3: "list_all (\<lambda>a. \<not> is_drawFunc_call a \<and> a \<noteq> glDisable_COLOR_LOGIC_OP) t3"
    using call_drawFunc_no_call [of L "drawFunc st'" "in_shm inp" "compFunc st'"
        "texPixels st'" "in_pixels inp"] d by simp
  obtain b3 where g3: "gl_scan (False, drawFunc st') t3 = Some (b3, drawFunc st')"
    using gl_scan_call_drawFunc [of "drawFunc st'" L "in_shm inp" "compFunc st'"
        "texPixels st'" "in_pixels inp"] d by auto
  have cases: "fst (render_iteration L inp st) = [] \<or>
      fst (render_iteration L inp st) = t1 \<or>
      fst (render_iteration L inp st) = t1 @ [DEBUG_ERROR ''error during wait for host''] \<or>
      fst (render_iteration L inp st) = t1 @ t2 \<or>
      fst (render_iteration L inp st) =
        (t1 @ t2) @ [glDisable_COLOR_LOGIC_OP, drawFunc_call (drawFunc st')] @ t3"
    using n w d
    by (cases go; cases res)
      (auto simp: render_iteration_def Let_def split: option.splits)
  have pe: "list_all plain_action (t1 @ [DEBUG_ERROR ''error during wait for host''])"
    using p1 by simp
  have p12: "list_all plain_action (t1 @ t2)" using p1 p2 by simp
  from cases show ?thesis
  proof (elim disjE)
    assume e: "fst (render_iteration L inp st) = []"
    show ?thesis by (rule plain [OF _ e]) simp
  next
    assume e: "fst (render_iteration L inp st) = t1"
    show ?thesis by (rule plain [OF p1 e])
  next
    assume e: "fst (render_iteration L inp st) =
        t1 @ [DEBUG_ERROR ''error during wait for host'']"
    show ?thesis by (rule plain [OF pe e])
  next
    assume e: "fst (render_iteration L inp st) = t1 @ t2"
    show ?thesis by (rule plain [OF p12 e])
  next
    assume e: "fst (render_iteration L inp st) =
        (t1 @ t2) @ [glDisable_COLOR_LOGIC_OP, drawFunc_call (drawFunc st')] @ t3"
    show ?thesis by (rule draw [OF p12 q3 g3 e])
  qed
qed

lemma gl_scan_render_iteration:
  "\<exists>s'. gl_scan s (fst (render_iteration L inp st)) = Some s'"
proof (cases rule: render_iteration_parts [of L inp st])
  case (plain t1)
  then show ?thesis using gl_scan_plain [of t1 s] by simp
next
  case (draw t1 df t3 b)
  obtain b0 cur where s: "s = (b0, cur)" by (cases s)
  have "gl_scan s (t1 @ [glDisable_COLOR_LOGIC_OP, drawFunc_call df] @ t3) = Some (b, df)"
    using gl_scan_plain [OF draw(1), of s] draw(3) by (simp add: gl_scan_append s)
  then show ?thesis using draw(4) by simp
qed

lemma gl_scan_no_presenter:
  assumes "list_all (\<lambda>a. \<not> is_drawFunc_call a) (fst (render_iteration L inp st))"
  shows "gl_scan s (fst (render_iteration L inp st)) = Some s"
proof (cases rule: render_iteration_parts [of L inp st])
  case (plain t1)
  then show ?thesis using gl_scan_plain [of t1 s] by simp
next
  case (draw t1 df t3 b)
  then show ?thesis using assms by simp
qed

lemma glDisable_placed_render_iteration:
  "glDisable_placed False (fst (render_iteration L inp st) @ rest) = glDisable_placed False rest"
proof (cases rule: render_iteration_parts [of L inp st])
  case (plain t1)
  then show ?thesis using glDisable_placed_plain [of t1 rest] by simp
next
  case (draw t1 df t3 b)
  have "glDisable_placed False
      (t1 @ ([glDisable_COLOR_LOGIC_OP, drawFunc_call df] @ t3 @ rest)) =
      glDisable_placed False ([glDisable_COLOR_LOGIC_OP, drawFunc_call df] @ t3 @ rest)"
    by (rule glDisable_placed_plain [OF draw(1)])
  also have "\<dots> = glDisable_placed False (t3 @ rest)" by simp
  also have "\<dots> = glDisable_placed False rest" by (rule glDisable_placed_quiet [OF draw(2)])
  finally show ?thesis using draw(4) by simp
qed

lemma gl_scan_render_loop:
  "\<exists>s'. gl_scan s (fst (render_loop L inps st)) = Some s'"
proof (induction inps arbitrary: s st)
  case Nil
  show ?case by simp
next
  case (Cons inp inps)
  obtain t1 c1 st1 where it: "render_iteration L inp st = (t1, c1, st1)"
    by (cases "render_iteration L inp st") auto
  obtain s1 where s1: "gl_scan s t1 = Some s1"
    using gl_scan_render_iteration [of s L inp st] it by auto
  obtain t2 r2 where lp: "render_loop L inps st1 = (t2, r2)"
    by (cases "render_loop L inps st1") auto
  obtain s2 where s2: "gl_scan s1 t2 = Some s2"
    using Cons.IH [of s1 st1] lp by auto
  show ?case
    using it s1 lp s2
    by (cases c1) (auto simp: gl_scan_append)
qed

lemma glDisable_placed_render_loop:
  "glDisable_placed False (fst (render_loop L inps st))"
proof (induction inps arbitrary: st)
  case Nil
  show ?case by simp
next
  case (Cons inp inps)
  obtain t1 c1 st1 where it: "render_iteration L inp st = (t1, c1, st1)"
    by (cases "render_iteration L inp st") auto
  have a: "glDisable_placed False (t1 @ rest) = glDisable_placed False rest" for rest
    using glDisable_placed_render_iteration [of L inp st rest] it by simp
  have a0: "glDisable_placed False t1" using a [of "[]"] by simp
  obtain t2 r2 where lp: "render_loop L inps st1 = (t2, r2)"
    by (cases "render_loop L inps st1") auto
  have b: "glDisable_placed False t2" using Cons.IH [of st1] lp by simp
  show ?case
    using it lp a [of t2] a0 b
    by (cases c1) auto
qed

text \<open>The decompression functions keep the size of the destination memory.\<close>

lemma BLACK_RLE_step_length:
  assumes "BLACK_RLE_step L smem st = Inr st'"
  shows "length (rle_mem st') = length (rle_mem st)"
  using assms
  by (auto simp: BLACK_RLE_step_def memcpy_def Let_def split: if_splits sum.splits)

lemma BLACK_RLE_loop_length:
  assumes "BLACK_RLE_loop L smem pixels st = Some r"
  shows "\<forall>st'. r = Inr st' \<longrightarrow> length (rle_mem st') = length (rle_mem st)"
proof (rule BLACK_RLE_loop.raw_induct
    [where P = "\<lambda>L smem pixels st r.
       \<forall>st'. r = Inr st' \<longrightarrow> length (rle_mem st') = length (rle_mem st)"])
  show "BLACK_RLE_loop L smem pixels st = Some r" by (rule assms)
next
  fix loop :: "RLEHeader_layout \<Rightarrow> u8 list \<Rightarrow> nat \<Rightarrow> rle_state \<Rightarrow> (fault + rle_state) option"
  fix L smem pixels st r
  assume ih: "\<And>L smem pixels st r. loop L smem pixels st = Some r \<Longrightarrow>
      \<forall>st'. r = Inr st' \<longrightarrow> length (rle_mem st') = length (rle_mem st)"
  assume eq: "(if rle_i st < pixels
      then case BLACK_RLE_step L smem st of Inl e \<Rightarrow> Some (Inl e)
           | Inr st' \<Rightarrow> loop L smem pixels st'
      else Some (Inr st)) = Some r"
  show "\<forall>st'. r = Inr st' \<longrightarrow> length (rle_mem st') = length (rle_mem st)"
  proof (cases "rle_i st < pixels")
    case False
    with eq show ?thesis by auto
  next
    case True
    show ?thesis
    proof (cases "BLACK_RLE_step L smem st")
      case (Inl e)
      with True eq show ?thesis by auto
    next
      case (Inr st1)
      with True eq have l: "loop L smem pixels st1 = Some r" by simp
      show ?thesis
        using ih [OF l] BLACK_RLE_step_length [OF Inr] by simp
    qed
  qed
qed

lemma compFunc_BLACK_RLE_length:
  assumes "compFunc_BLACK_RLE L dst src len = Inr dst'"
  shows "length dst' = length dst"
proof (cases "BLACK_RLE_loop L src (len div 3)
    \<lparr> rle_i = 0, rle_dst = 0, rle_src = 0, rle_mem = dst \<rparr>")
  case None
  with assms show ?thesis by (simp add: compFunc_BLACK_RLE_def BLACK_RLE_run_def)
next
  case (Some r)
  obtain st' where "r = Inr st'" "dst' = rle_mem st'"
    using assms Some
    by (auto simp: compFunc_BLACK_RLE_def BLACK_RLE_run_def split: sum.splits)
  then show ?thesis using BLACK_RLE_loop_length [OF Some] by simp
qed

lemma compFunc_NONE_length:
  assumes "compFunc_NONE dst src len = Inr dst'"
  shows "length dst' = length dst"
  using assms by (auto simp: compFunc_NONE_def memcpy_def split: if_splits)

lemma call_compFunc_length:
  assumes "call_compFunc L cf dst src len = Inr dst'"
  shows "length dst' = length dst"
  using assms compFunc_NONE_length compFunc_BLACK_RLE_length
  by (auto simp: call_compFunc_def split: option.splits CompFunc.splits)

lemma drawFunc_XOR_zeroes:
  assumes "drawFunc_XOR L shm cf dst src = (t, Inr dst')"
  shows "take (len3 shm) dst' = replicate (len3 shm) 0 \<and> length dst' = length dst
    \<and> gl_scan (False, Some DrawFunc_XOR) t = Some (True, Some DrawFunc_XOR)"
proof -
  obtain d1 where c: "call_compFunc L cf dst src (len3 shm) = Inr d1"
    and m: "memset0 d1 (len3 shm) = Inr dst'"
    and t: "t = [glEnable_COLOR_LOGIC_OP, glLogicOp_XOR, compFunc_call cf (len3 shm),
                ivshmem_kick_irq (guestID shm), SDL_UnlockTexture, SDL_RenderCopy,
                SDL_RenderPresent, memset_zero (len3 shm)]"
    using assms
    by (auto simp: drawFunc_XOR_def len3_def Let_def split: sum.splits)
  have l: "length d1 = length dst" using call_compFunc_length [OF c] .
  show ?thesis
    using m l t by (auto simp: memset0_def split: if_splits)
qed

lemma drawFunc_XOR_NONE:
  assumes "len3 shm \<le> length src" "len3 shm \<le> length dst"
  shows "snd (drawFunc_XOR L shm (Some CompFunc_NONE) dst src) =
     Inr (replicate (len3 shm) 0 @ drop (len3 shm) dst)"
  using assms
  by (simp add: drawFunc_XOR_def memset0_def Let_def call_compFunc_def compFunc_NONE_def
      memcpy_def len3_def)

lemma len3_no_wrap:
  assumes "unat (height shm) * unat (stride shm) * 3 < 2 ^ 32"
  shows "len3 shm = unat (height shm) * unat (stride shm) * 3"
proof -
  have "unat (height shm * stride shm * 3) =
      (unat (height shm) * unat (stride shm) mod 2 ^ 32 * 3) mod 2 ^ 32"
    by (simp add: unat_word_ariths)
  also have "\<dots> = (unat (height shm) * unat (stride shm) * 3) mod 2 ^ 32"
    by (simp add: mod_mult_left_eq)
  also have "\<dots> = unat (height shm) * unat (stride shm) * 3"
    using assms by simp
  finally show ?thesis by (simp add: len3_def)
qed

text \<open>A pass of the running loop that does anything starts with a wait.\<close>

lemma wait_loop_starts_with_wait:
  "fst (wait_loop True gid ws) = [] \<or>
   (\<exists>r t. fst (wait_loop True gid ws) = ivshmem_wait_irq r # t)"
proof (cases ws)
  case Nil
  then show ?thesis by simp
next
  case (Cons r rs)
  then show ?thesis by (cases r) (auto split: prod.splits)
qed

lemma render_iteration_starts_with_wait:
  assumes "running st"
  shows "fst (render_iteration L inp st) = [] \<or>
    (\<exists>r t. fst (render_iteration L inp st) = ivshmem_wait_irq r # t)"
proof -
  obtain t1 res where w: "wait_loop True (guestID (in_shm inp)) (in_waits inp) = (t1, res)"
    by (cases "wait_loop True (guestID (in_shm inp)) (in_waits inp)") auto
  have "t1 = [] \<or> (\<exists>r t. t1 = ivshmem_wait_irq r # t)"
    using wait_loop_starts_with_wait [of "guestID (in_shm inp)" "in_waits inp"] w by simp
  then show ?thesis
  proof
    assume e: "t1 = []"
    have "res = None"
      using w e by (cases "in_waits inp") (auto split: IVSHMEM_WAIT_RESULT.splits prod.splits)
    then show ?thesis
      using assms w e by (simp add: render_iteration_def Let_def)
  next
    assume "\<exists>r t. t1 = ivshmem_wait_irq r # t"
    then obtain r t where t1: "t1 = ivshmem_wait_irq r # t" by blast
    show ?thesis
      using assms w t1
      by (auto simp: render_iteration_def Let_def
          split: option.splits prod.splits bool.splits sum.splits)
  qed
qed

text \<open>
  C7, as the code has it. When \<open>drawFunc_XOR\<close> returns, the \<open>len3\<close> bytes it decoded
  into are 0, which is the whole destination when the destination has that size;
  \<open>len3\<close> is \<open>height * stride * 3\<close> as the code computes it, in 32-bit arithmetic, and
  is the product itself when that is below \<open>2 ^ 32\<close>. It does return, with
  \<open>compFunc_NONE\<close>, when frame and destination hold that many bytes. The logic
  operation it enabled is still enabled when it returns. In every trace of the render
  loop \<^verbatim>\<open>glDisable(GL_COLOR_LOGIC_OP)\<close> stands right before each call of a presenter and
  nowhere else; each presenter is called with the logic operation disabled, only
  \<open>drawFunc_XOR\<close> enables it, and a frame is presented with it enabled in
  \<open>drawFunc_XOR\<close> and nowhere else. A pass that calls no presenter leaves the logic
  operation as it found it, and no pass of the running loop starts with the
  \<^verbatim>\<open>glDisable\<close>: it starts with a wait, or does nothing.
\<close>

theorem drawFunc_XOR_clears_and_blend_is_reset:
  "(drawFunc_XOR L shm cf dst src = (t, Inr dst') \<longrightarrow>
      take (len3 shm) dst' = replicate (len3 shm) 0 \<and> length dst' = length dst \<and>
      (length dst = len3 shm \<longrightarrow> dst' = replicate (len3 shm) 0) \<and>
      gl_scan (False, Some DrawFunc_XOR) t = Some (True, Some DrawFunc_XOR))
   \<and> (unat (height shm) * unat (stride shm) * 3 < 2 ^ 32 \<longrightarrow>
      len3 shm = unat (height shm) * unat (stride shm) * 3)
   \<and> (len3 shm \<le> length src \<and> len3 shm \<le> length dst \<longrightarrow>
      snd (drawFunc_XOR L shm (Some CompFunc_NONE) dst src) =
        Inr (replicate (len3 shm) 0 @ drop (len3 shm) dst))
   \<and> (\<exists>s'. gl_scan s (fst (render_loop L inps st)) = Some s')
   \<and> glDisable_placed False (fst (render_loop L inps st))
   \<and> (list_all (\<lambda>a. \<not> is_drawFunc_call a) (fst (render_iteration L inp st)) \<longrightarrow>
      gl_scan s (fst (render_iteration L inp st)) = Some s)
   \<and> (running st \<longrightarrow>
      fst (render_iteration L inp st) = [] \<or>
      (\<exists>r t'. fst (render_iteration L inp st) = ivshmem_wait_irq r # t'))"
proof (intro conjI impI)
  assume a: "drawFunc_XOR L shm cf dst src = (t, Inr dst')"
  show z: "take (len3 shm) dst' = replicate (len3 shm) 0"
    and l: "length dst' = length dst"
    and "gl_scan (False, Some DrawFunc_XOR) t = Some (True, Some DrawFunc_XOR)"
    using drawFunc_XOR_zeroes [OF a] by simp_all
  assume "length dst = len3 shm"
  then show "dst' = replicate (len3 shm) 0" using z l by simp
next
  assume "unat (height shm) * unat (stride shm) * 3 < 2 ^ 32"
  then show "len3 shm = unat (height shm) * unat (stride shm) * 3"
    by (rule len3_no_wrap)
next
  assume "len3 shm \<le> length src \<and> len3 shm \<le> length dst"
  then show "snd (drawFunc_XOR L shm (Some CompFunc_NONE) dst src) =
        Inr (replicate (len3 shm) 0 @ drop (len3 shm) dst)"
    using drawFunc_XOR_NONE by blast
next
  show "\<exists>s'. gl_scan s (fst (render_loop L inps st)) = Some s'"
    by (rule gl_scan_render_loop)
  show "glDisable_placed False (fst (render_loop L inps st))"
    by (rule glDisable_placed_render_loop)
next
  assume "list_all (\<lambda>a. \<not> is_drawFunc_call a) (fst (render_iteration L inp st))"
  then show "gl_scan s (fst (render_iteration L inp st)) = Some s"
    by (rule gl_scan_no_presenter)
next
  assume "running st"
  then show "fst (render_iteration L inp st) = [] \<or>
      (\<exists>r t'. fst (render_iteration L inp st) = ivshmem_wait_irq r # t')"
    by (rule render_iteration_starts_with_wait)
qed

lemma xor_then_rgb_trace:
  "fst (render_loop packed16 [xor_frame, ready_frame hdr1] (render_init hdr0 g0)) =
     [ivshmem_wait_irq IVSHMEM_WAIT_RESULT_OK, SDL_SetWindowSize 1 1,
      SDL_SetWindowPosition_CENTERED, SDL_CreateTexture SDL_PIXELFORMAT_RGB24 1 1,
      SDL_LockTexture, glDisable_COLOR_LOGIC_OP, drawFunc_call (Some DrawFunc_XOR),
      glEnable_COLOR_LOGIC_OP, glLogicOp_XOR, compFunc_call (Some CompFunc_NONE) 3,
      ivshmem_kick_irq 1, SDL_UnlockTexture, SDL_RenderCopy, SDL_RenderPresent,
      memset_zero 3,
      ivshmem_wait_irq IVSHMEM_WAIT_RESULT_OK, SDL_DestroyTexture, SDL_SetWindowSize 1 1,
      SDL_SetWindowPosition_CENTERED, SDL_CreateTexture SDL_PIXELFORMAT_RGB24 1 1,
      SDL_LockTexture, glDisable_COLOR_LOGIC_OP, drawFunc_call (Some DrawFunc_RGB),
      compFunc_call (Some CompFunc_NONE) 3, ivshmem_kick_irq 1, SDL_UnlockTexture,
      SDL_RenderClear, SDL_RenderCopy, SDL_RenderPresent]"
  by (simp add: render_iteration_def xor_frame_def ready_frame_def hdr1_def hdr0_def
      render_init_def g0_def negotiate_def areFormatsSame_def frameType_switch_def
      compType_switch_def call_drawFunc_def drawFunc_RGB_def drawFunc_XOR_def
      call_compFunc_def compFunc_NONE_def memcpy_def memset0_def)

lemma xor_then_other_trace:
  "fst (render_loop packed16 [xor_frame, other_frame] (render_init hdr0 g0)) =
     [ivshmem_wait_irq IVSHMEM_WAIT_RESULT_OK, SDL_SetWindowSize 1 1,
      SDL_SetWindowPosition_CENTERED, SDL_CreateTexture SDL_PIXELFORMAT_RGB24 1 1,
      SDL_LockTexture, glDisable_COLOR_LOGIC_OP, drawFunc_call (Some DrawFunc_XOR),
      glEnable_COLOR_LOGIC_OP, glLogicOp_XOR, compFunc_call (Some CompFunc_NONE) 3,
      ivshmem_kick_irq 1, SDL_UnlockTexture, SDL_RenderCopy, SDL_RenderPresent,
      memset_zero 3,
      ivshmem_wait_irq IVSHMEM_WAIT_RESULT_OK, SDL_DestroyTexture]"
  by (simp add: render_iteration_def xor_frame_def other_frame_def ready_frame_def hdr1_def
      hdr0_def render_init_def g0_def negotiate_def areFormatsSame_def frameType_switch_def
      compType_switch_def call_drawFunc_def drawFunc_XOR_def
      call_compFunc_def compFunc_NONE_def memcpy_def memset0_def)

theorem drawFunc_XOR_clears_and_blend_is_reset_witness:
  "drawFunc_XOR packed16 (in_shm xor_frame) (Some CompFunc_NONE) [5, 5, 5] [7, 7, 7] =
     ([glEnable_COLOR_LOGIC_OP, glLogicOp_XOR, compFunc_call (Some CompFunc_NONE) 3,
       ivshmem_kick_irq 1, SDL_UnlockTexture, SDL_RenderCopy, SDL_RenderPresent,
       memset_zero 3], Inr [0, 0, 0])
   \<and> len3 (in_shm xor_frame) = 3
   \<and> unat (height (in_shm xor_frame)) * unat (stride (in_shm xor_frame)) * 3 < 2 ^ 32
   \<and> gl_scan (False, None)
       (fst (render_loop packed16 [xor_frame, ready_frame hdr1] (render_init hdr0 g0))) =
       Some (False, Some DrawFunc_RGB)
   \<and> glDisable_placed False
       (fst (render_loop packed16 [xor_frame, ready_frame hdr1] (render_init hdr0 g0)))
   \<and> fst (render_iteration packed16 other_frame st_rgb) =
       [ivshmem_wait_irq IVSHMEM_WAIT_RESULT_OK, SDL_DestroyTexture]
   \<and> gl_scan (True, Some DrawFunc_XOR) (fst (render_iteration packed16 other_frame st_rgb)) =
       Some (True, Some DrawFunc_XOR)
   \<and> running st_rgb"
proof -
  have d: "drawFunc_XOR packed16 (in_shm xor_frame) (Some CompFunc_NONE) [5, 5, 5] [7, 7, 7] =
     ([glEnable_COLOR_LOGIC_OP, glLogicOp_XOR, compFunc_call (Some CompFunc_NONE) 3,
       ivshmem_kick_irq 1, SDL_UnlockTexture, SDL_RenderCopy, SDL_RenderPresent,
       memset_zero 3], Inr [0, 0, 0])"
  proof -
    have r: "replicate 3 (0::u8) = [0, 0, 0]" by (simp add: numeral_3_eq_3)
    show ?thesis
      by (simp add: drawFunc_XOR_def xor_frame_def ready_frame_def hdr1_def hdr0_def
          call_compFunc_def compFunc_NONE_def memcpy_def memset0_def r)
  qed
  have w: "unat (height (in_shm xor_frame)) * unat (stride (in_shm xor_frame)) * 3 < 2 ^ 32"
    by (simp add: xor_frame_def ready_frame_def hdr1_def)
  have o: "fst (render_iteration packed16 other_frame st_rgb) =
       [ivshmem_wait_irq IVSHMEM_WAIT_RESULT_OK, SDL_DestroyTexture]"
    by (simp add: render_iteration_def other_frame_def ready_frame_def hdr1_def hdr0_def
        st_rgb_def negotiate_def areFormatsSame_def frameType_switch_def)
  have g: "gl_scan (False, None)
       (fst (render_loop packed16 [xor_frame, ready_frame hdr1] (render_init hdr0 g0))) =
       Some (False, Some DrawFunc_RGB)"
    unfolding xor_then_rgb_trace by simp
  note inst = drawFunc_XOR_clears_and_blend_is_reset [where L = packed16
      and shm = "in_shm xor_frame" and cf = "Some CompFunc_NONE" and dst = "[5, 5, 5]"
      and src = "[7, 7, 7]" and t = "[glEnable_COLOR_LOGIC_OP, glLogicOp_XOR,
        compFunc_call (Some CompFunc_NONE) 3, ivshmem_kick_irq 1, SDL_UnlockTexture,
        SDL_RenderCopy, SDL_RenderPresent, memset_zero 3]"
      and dst' = "[0, 0, 0]" and s = "(True, Some DrawFunc_XOR)"
      and inps = "[xor_frame, ready_frame hdr1]" and st = "render_init hdr0 g0"]
  have l0: "len3 (in_shm xor_frame) =
      unat (height (in_shm xor_frame)) * unat (stride (in_shm xor_frame)) * 3"
    using inst [of other_frame] w by blast
  have l: "len3 (in_shm xor_frame) = 3"
    unfolding l0 by (simp add: xor_frame_def ready_frame_def hdr1_def)
  have p: "glDisable_placed False
       (fst (render_loop packed16 [xor_frame, ready_frame hdr1] (render_init hdr0 g0)))"
    using inst [of other_frame] by blast
  have k: "gl_scan (True, Some DrawFunc_XOR)
      (fst (render_iteration packed16 other_frame st_rgb)) = Some (True, Some DrawFunc_XOR)"
    using drawFunc_XOR_clears_and_blend_is_reset [where s = "(True, Some DrawFunc_XOR)"
        and L = packed16 and inp = other_frame and st = st_rgb] o
    by simp
  have r: "running st_rgb" by (simp add: st_rgb_def)
  show ?thesis using d l w g p o k r by simp
qed

text \<open>
  The claim C7 as stated has the logic operation disabled at the start of the next pass
  of the outer loop and enabled during the call of \<open>drawFunc_XOR\<close> only, and has
  \<open>height * stride * 3\<close> bytes cleared. After an XOR frame, a pass that meets an
  unrecognized frame type waits, destroys the texture and ends, and the logic operation is
  enabled throughout and at its end. For the header with \<open>height = stride = 65536\<close> the
  product is 12884901888, the code computes 0, and \<open>drawFunc_XOR\<close> returns with the
  destination as it was.
\<close>

theorem XOR_blend_not_reset_at_start:
  "fst (render_loop packed16 [xor_frame, other_frame] (render_init hdr0 g0)) =
     [ivshmem_wait_irq IVSHMEM_WAIT_RESULT_OK, SDL_SetWindowSize 1 1,
      SDL_SetWindowPosition_CENTERED, SDL_CreateTexture SDL_PIXELFORMAT_RGB24 1 1,
      SDL_LockTexture, glDisable_COLOR_LOGIC_OP, drawFunc_call (Some DrawFunc_XOR),
      glEnable_COLOR_LOGIC_OP, glLogicOp_XOR, compFunc_call (Some CompFunc_NONE) 3,
      ivshmem_kick_irq 1, SDL_UnlockTexture, SDL_RenderCopy, SDL_RenderPresent,
      memset_zero 3,
      ivshmem_wait_irq IVSHMEM_WAIT_RESULT_OK, SDL_DestroyTexture]
   \<and> gl_scan (False, None)
       (fst (render_loop packed16 [xor_frame, other_frame] (render_init hdr0 g0))) =
       Some (True, Some DrawFunc_XOR)
   \<and> drawFunc_XOR packed16 hdr_big (Some CompFunc_NONE) [5, 5, 5] [7, 7, 7] =
       ([glEnable_COLOR_LOGIC_OP, glLogicOp_XOR, compFunc_call (Some CompFunc_NONE) 0,
         ivshmem_kick_irq 1, SDL_UnlockTexture, SDL_RenderCopy, SDL_RenderPresent,
         memset_zero 0], Inr [5, 5, 5])
   \<and> unat (height hdr_big) * unat (stride hdr_big) * 3 = 12884901888"
proof -
  have g: "gl_scan (False, None)
       (fst (render_loop packed16 [xor_frame, other_frame] (render_init hdr0 g0))) =
       Some (True, Some DrawFunc_XOR)"
    unfolding xor_then_other_trace by simp
  have b: "drawFunc_XOR packed16 hdr_big (Some CompFunc_NONE) [5, 5, 5] [7, 7, 7] =
       ([glEnable_COLOR_LOGIC_OP, glLogicOp_XOR, compFunc_call (Some CompFunc_NONE) 0,
         ivshmem_kick_irq 1, SDL_UnlockTexture, SDL_RenderCopy, SDL_RenderPresent,
         memset_zero 0], Inr [5, 5, 5])"
    by (simp add: drawFunc_XOR_def hdr_big_def hdr0_def call_compFunc_def compFunc_NONE_def
        memcpy_def memset0_def)
  have u: "unat (height hdr_big) * unat (stride hdr_big) * 3 = 12884901888"
    by (simp add: hdr_big_def hdr0_def)
  show ?thesis using xor_then_other_trace g b u by simp
qed

subsection \<open>Scan code lookup\<close>

text \<open>
  C9. The claim is that \<open>mapScancode\<close> reads \<^verbatim>\<open>usb_to_ps2\<close> only inside the table.
  The code reads one element past the end: for the scan code equal to the number of
  entries the guard \<^verbatim>\<open>scancode > sizeof(usb_to_ps2) / sizeof(uint32_t)\<close> is false and
  \<^verbatim>\<open>usb_to_ps2[scancode]\<close> is evaluated.
\<close>

theorem mapScancode_reads_past_table:
  "mapScancode usb_to_ps2 (length usb_to_ps2) = Inl ReadOutOfBounds"
  by (simp add: mapScancode_def)

theorem mapScancode_reads_past_table_witness:
  "mapScancode [0, 0x29, 0x02] 3 = Inl ReadOutOfBounds"
  using mapScancode_reads_past_table [of "[0, 0x29, 0x02]"] by (simp add: eval_nat_numeral)

subsection \<open>Events before the first frame\<close>

lemma handle_event_not_started:
  "\<not> started st \<Longrightarrow> ev \<noteq> SDL_QUIT \<Longrightarrow> handle_event tbl ok shm ev st = Inr ([], False, st)"
  by (simp add: handle_event_def)

lemma handle_event_quit:
  "handle_event tbl ok shm SDL_QUIT st = Inr ([], True, st\<lparr> running := False \<rparr>)"
  by (simp add: handle_event_def)

lemma poll_loop_not_started:
  "\<not> started st \<Longrightarrow>
   poll_loop tbl ok evs st =
     Inr ([], if SDL_QUIT \<in> fst ` set evs then st\<lparr> running := False \<rparr> else st)"
proof (induction evs)
  case Nil
  show ?case by simp
next
  case (Cons p evs)
  obtain ev shm where p: "p = (ev, shm)" by (cases p)
  show ?case
  proof (cases "ev = SDL_QUIT")
    case True
    then show ?thesis by (simp add: p handle_event_quit)
  next
    case False
    then show ?thesis
      using Cons by (simp add: p handle_event_not_started)
  qed
qed

lemma event_loop_stopped:
  "\<not> running st \<Longrightarrow> event_loop tbl ok bs st = Inr ([], Leave, st)"
  by (cases bs) simp_all

lemma event_loop_not_started:
  "\<not> started st \<Longrightarrow>
   \<exists>t c st'. event_loop tbl ok bs st = Inr (t, c, st') \<and> list_all (\<lambda>a. \<not> is_spice a) t"
proof (induction bs arbitrary: st)
  case Nil
  show ?case by simp
next
  case (Cons evs bs)
  show ?case
  proof (cases "running st")
    case False
    then show ?thesis by simp
  next
    case True
    let ?st' = "if SDL_QUIT \<in> fst ` set evs then st\<lparr> running := False \<rparr> else st"
    have p: "poll_loop tbl ok evs st = Inr ([], ?st')"
      using poll_loop_not_started [OF Cons.prems] .
    have "\<not> started ?st'" using Cons.prems by simp
    then obtain t c st'' where
      "event_loop tbl ok bs ?st' = Inr (t, c, st'')" "list_all (\<lambda>a. \<not> is_spice a) t"
      using Cons.IH by blast
    then show ?thesis using True p by simp
  qed
qed

text \<open>
  C8. While \<open>started\<close> is false, an event other than \<open>SDL_QUIT\<close> is dropped: no call
  is made and the state is as before. \<open>SDL_QUIT\<close> clears \<open>running\<close> and leaves the
  poll loop, whatever \<open>started\<close> is. So a run of \<open>eventThread\<close> with \<open>started\<close> false
  makes no spice call, and it returns, \<open>running\<close> cleared, after the first batch of
  events with \<open>SDL_QUIT\<close> in it.
\<close>

theorem events_before_start_are_dropped:
  "(\<not> started st \<and> ev \<noteq> SDL_QUIT \<longrightarrow> handle_event tbl ok shm ev st = Inr ([], False, st))
   \<and> handle_event tbl ok shm SDL_QUIT st = Inr ([], True, st\<lparr> running := False \<rparr>)
   \<and> (\<not> started g \<longrightarrow>
        (\<exists>t c g'. eventThread tbl ok batches g = Inr (t, c, g') \<and>
           list_all (\<lambda>a. \<not> is_spice a) t))
   \<and> (\<not> started g \<and> running g \<and> SDL_QUIT \<in> fst ` set evs \<longrightarrow>
        eventThread tbl ok (evs # rest) g =
          Inr ([SDL_SetHint_RELATIVE_MODE_WARP, usleep 1000], Leave, g\<lparr> running := False \<rparr>))"
proof (intro conjI impI)
  assume "\<not> started st \<and> ev \<noteq> SDL_QUIT"
  then show "handle_event tbl ok shm ev st = Inr ([], False, st)"
    by (simp add: handle_event_not_started)
next
  show "handle_event tbl ok shm SDL_QUIT st = Inr ([], True, st\<lparr> running := False \<rparr>)"
    by (rule handle_event_quit)
next
  assume "\<not> started g"
  then have "\<not> started (event_init g)" by (simp add: event_init_def)
  then obtain t c st' where
    "event_loop tbl ok batches (event_init g) = Inr (t, c, st')"
    "list_all (\<lambda>a. \<not> is_spice a) t"
    using event_loop_not_started by blast
  then show "\<exists>t c g'. eventThread tbl ok batches g = Inr (t, c, g') \<and>
           list_all (\<lambda>a. \<not> is_spice a) t"
    by (simp add: eventThread_def)
next
  assume h: "\<not> started g \<and> running g \<and> SDL_QUIT \<in> fst ` set evs"
  then have ns: "\<not> started (event_init g)" and r: "running (event_init g)"
    by (simp_all add: event_init_def)
  have p: "poll_loop tbl ok evs (event_init g) = Inr ([], (event_init g)\<lparr> running := False \<rparr>)"
    using poll_loop_not_started [OF ns, of tbl ok evs] h by simp
  have e: "event_loop tbl ok rest ((event_init g)\<lparr> running := False \<rparr>) =
      Inr ([], Leave, (event_init g)\<lparr> running := False \<rparr>)"
    by (rule event_loop_stopped) simp
  have g: "event_globals ((event_init g)\<lparr> running := False \<rparr>) = g\<lparr> running := False \<rparr>"
    by (simp add: event_globals_def event_init_def)
  show "eventThread tbl ok (evs # rest) g =
          Inr ([SDL_SetHint_RELATIVE_MODE_WARP, usleep 1000], Leave, g\<lparr> running := False \<rparr>)"
    using r p e g by (simp add: eventThread_def)
qed

theorem events_before_start_are_dropped_witness:
  "eventThread [0, 0x29, 0x02] (\<lambda>a. True)
     [[(toggle, hdr0), (SDL_KEYDOWN 1 False, hdr0), (SDL_MOUSEMOTION 5 6 1 1, hdr0),
       (SDL_QUIT, hdr0), (SDL_KEYDOWN 1 False, hdr0)], [(toggle, hdr0)]] g0 =
     Inr ([SDL_SetHint_RELATIVE_MODE_WARP, usleep 1000], Leave, g0\<lparr> running := False \<rparr>)
   \<and> handle_event [0, 0x29, 0x02] (\<lambda>a. True) hdr0 (SDL_KEYDOWN 1 False) (event_init g0) =
       Inr ([], False, event_init g0)
   \<and> \<not> started g0 \<and> running g0"
  using events_before_start_are_dropped [of "event_init g0" "SDL_KEYDOWN 1 False"
      "[0, 0x29, 0x02]" "\<lambda>a. True" hdr0 g0 "[]"
      "[(toggle, hdr0), (SDL_KEYDOWN 1 False, hdr0), (SDL_MOUSEMOTION 5 6 1 1, hdr0),
       (SDL_QUIT, hdr0), (SDL_KEYDOWN 1 False, hdr0)]" "[[(toggle, hdr0)]]"]
  by (simp add: g0_def event_init_def)

subsection \<open>The pointer mode\<close>

lemma event_switch_toggle:
  "event_switch tbl ok shm toggle st =
     (if serverMode st then
        Inr ([spice_mouse_mode False, SDL_SetRelativeMouseMode False,
              SDL_WarpMouseInWindow (mouseX shm) (mouseY shm)],
             st\<lparr> serverMode := False, local_mouseX := mouseX shm, local_mouseY := mouseY shm \<rparr>)
      else Inr ([spice_mouse_mode True, SDL_SetRelativeMouseMode True],
                st\<lparr> serverMode := True \<rparr>))"
  by (simp add: event_switch_def toggle_def Let_def)

lemma handle_event_toggle:
  assumes "started st"
  shows "\<exists>t st'. handle_event tbl ok shm toggle st = Inr (t, False, st')
     \<and> serverMode st' = (\<not> serverMode st) \<and> started st' \<and> init st' \<and> \<not> windowChanged st'
     \<and> list_all (\<lambda>a. \<not> is_key_msg a) t
     \<and> (serverMode st \<longrightarrow> local_mouseX st' = mouseX shm \<and> local_mouseY st' = mouseY shm)
     \<and> (init st \<and> \<not> windowChanged st \<longrightarrow>
          t = (if serverMode st then
                 [spice_mouse_mode False, SDL_SetRelativeMouseMode False,
                  SDL_WarpMouseInWindow (mouseX shm) (mouseY shm)]
               else [spice_mouse_mode True, SDL_SetRelativeMouseMode True]))"
  using assms
  by (auto simp: handle_event_def sync_init_def sync_window_def event_switch_toggle)
      (simp_all add: toggle_def)

lemma handle_event_hotkey_not_forwarded:
  assumes "ev = SDL_KEYDOWN SDL_SCANCODE_SCROLLLOCK rep \<or> ev = SDL_KEYUP SDL_SCANCODE_SCROLLLOCK"
  shows "\<exists>t st'. handle_event tbl ok shm ev st = Inr (t, False, st')
     \<and> list_all (\<lambda>a. \<not> is_key_msg a) t"
  using assms
  by (auto simp: handle_event_def sync_init_def sync_window_def event_switch_def Let_def)

lemma event_switch_serverMode:
  assumes "ev \<noteq> toggle" "event_switch tbl ok shm ev st = Inr (t, st')"
  shows "serverMode st' = serverMode st"
  using assms
  by (cases ev)
    (auto simp: event_switch_def toggle_def Let_def split: if_splits sum.splits)

lemma handle_event_serverMode:
  assumes "ev \<noteq> toggle" "handle_event tbl ok shm ev st = Inr (t, b, st')"
  shows "serverMode st' = serverMode st"
proof (cases "ev = SDL_QUIT \<or> \<not> started st")
  case True
  then show ?thesis using assms(2) by (auto simp: handle_event_def split: if_splits)
next
  case False
  obtain t1 st1 where s1: "sync_init shm st = (t1, st1)" by (cases "sync_init shm st")
  obtain t2 st2 where s2: "sync_window shm st1 = (t2, st2)" by (cases "sync_window shm st1")
  have m: "serverMode st2 = serverMode st"
    using s1 s2 by (auto simp: sync_init_def sync_window_def split: if_splits)
  obtain t3 where "event_switch tbl ok shm ev st2 = Inr (t3, st')"
    using False assms(2) s1 s2
    by (auto simp: handle_event_def split: sum.splits)
  then show ?thesis using event_switch_serverMode [OF assms(1)] m by simp
qed

text \<open>
  C6. From any state, two presses of Scroll Lock that are not repeats are handled without
  a fault and leave \<open>serverMode\<close> as it was, and neither sends a key message. If frames
  have started and the mode was absolute, the first press switches to relative mode and
  the second sets the spice mouse mode and SDL's relative mode to false and warps the
  cursor to \<open>(mouseX, mouseY)\<close> of the header, which becomes the position stored. No
  Scroll Lock event, press, repeat or release, sends a key message, and no other event
  changes \<open>serverMode\<close>.
\<close>

theorem toggle_twice_restores_mode:
  "(\<exists>t1 st1 t2 st2.
      handle_event tbl ok shm1 toggle st = Inr (t1, False, st1) \<and>
      handle_event tbl ok shm2 toggle st1 = Inr (t2, False, st2) \<and>
      serverMode st2 = serverMode st \<and>
      list_all (\<lambda>a. \<not> is_key_msg a) (t1 @ t2) \<and>
      (started st \<and> \<not> serverMode st \<longrightarrow>
         serverMode st1 \<and>
         t2 = [spice_mouse_mode False, SDL_SetRelativeMouseMode False,
               SDL_WarpMouseInWindow (mouseX shm2) (mouseY shm2)] \<and>
         local_mouseX st2 = mouseX shm2 \<and> local_mouseY st2 = mouseY shm2))
   \<and> (ev = SDL_KEYDOWN SDL_SCANCODE_SCROLLLOCK rep \<or> ev = SDL_KEYUP SDL_SCANCODE_SCROLLLOCK \<longrightarrow>
        (\<exists>t st'. handle_event tbl ok shm ev st = Inr (t, False, st') \<and>
           list_all (\<lambda>a. \<not> is_key_msg a) t))
   \<and> (ev \<noteq> toggle \<and> handle_event tbl ok shm ev st = Inr (t, b, st') \<longrightarrow>
        serverMode st' = serverMode st)"
proof (intro conjI impI)
  show "\<exists>t1 st1 t2 st2.
      handle_event tbl ok shm1 toggle st = Inr (t1, False, st1) \<and>
      handle_event tbl ok shm2 toggle st1 = Inr (t2, False, st2) \<and>
      serverMode st2 = serverMode st \<and>
      list_all (\<lambda>a. \<not> is_key_msg a) (t1 @ t2) \<and>
      (started st \<and> \<not> serverMode st \<longrightarrow>
         serverMode st1 \<and>
         t2 = [spice_mouse_mode False, SDL_SetRelativeMouseMode False,
               SDL_WarpMouseInWindow (mouseX shm2) (mouseY shm2)] \<and>
         local_mouseX st2 = mouseX shm2 \<and> local_mouseY st2 = mouseY shm2)"
  proof (cases "started st")
    case False
    have "handle_event tbl ok shm toggle st = Inr ([], False, st)" for shm
      using False by (simp add: handle_event_not_started toggle_def)
    then show ?thesis using False by simp
  next
    case True
    obtain t1 st1 where 1: "handle_event tbl ok shm1 toggle st = Inr (t1, False, st1)"
      "serverMode st1 = (\<not> serverMode st)" "started st1" "init st1" "\<not> windowChanged st1"
      "list_all (\<lambda>a. \<not> is_key_msg a) t1"
      using handle_event_toggle [OF True, of tbl ok shm1] by blast
    obtain t2 st2 where 2: "handle_event tbl ok shm2 toggle st1 = Inr (t2, False, st2)"
      "serverMode st2 = (\<not> serverMode st1)"
      "list_all (\<lambda>a. \<not> is_key_msg a) t2"
      "serverMode st1 \<longrightarrow> local_mouseX st2 = mouseX shm2 \<and> local_mouseY st2 = mouseY shm2"
      "init st1 \<and> \<not> windowChanged st1 \<longrightarrow>
          t2 = (if serverMode st1 then
                 [spice_mouse_mode False, SDL_SetRelativeMouseMode False,
                  SDL_WarpMouseInWindow (mouseX shm2) (mouseY shm2)]
               else [spice_mouse_mode True, SDL_SetRelativeMouseMode True])"
      using handle_event_toggle [OF 1(3), of tbl ok shm2] by blast
    show ?thesis
      using 1 2 by auto
  qed
next
  assume "ev = SDL_KEYDOWN SDL_SCANCODE_SCROLLLOCK rep \<or> ev = SDL_KEYUP SDL_SCANCODE_SCROLLLOCK"
  then show "\<exists>t st'. handle_event tbl ok shm ev st = Inr (t, False, st') \<and>
           list_all (\<lambda>a. \<not> is_key_msg a) t"
    by (rule handle_event_hotkey_not_forwarded)
next
  assume "ev \<noteq> toggle \<and> handle_event tbl ok shm ev st = Inr (t, b, st')"
  then show "serverMode st' = serverMode st"
    using handle_event_serverMode by blast
qed

theorem toggle_twice_restores_mode_witness:
  "handle_event [0, 0x29, 0x02] (\<lambda>a. True) hdr0 toggle ev_st =
     Inr ([spice_mouse_mode True, SDL_SetRelativeMouseMode True], False,
          ev_st\<lparr> serverMode := True \<rparr>)
   \<and> handle_event [0, 0x29, 0x02] (\<lambda>a. True) hdr_m toggle (ev_st\<lparr> serverMode := True \<rparr>) =
     Inr ([spice_mouse_mode False, SDL_SetRelativeMouseMode False,
           SDL_WarpMouseInWindow 10 20], False,
          ev_st\<lparr> local_mouseX := 10, local_mouseY := 20 \<rparr>)
   \<and> started ev_st \<and> \<not> serverMode ev_st
   \<and> handle_event [0, 0x29, 0x02] (\<lambda>a. True) hdr0 (SDL_KEYUP SDL_SCANCODE_SCROLLLOCK) ev_st =
     Inr ([], False, ev_st)"
proof -
  have 1: "handle_event [0, 0x29, 0x02] (\<lambda>a. True) hdr0 toggle ev_st =
     Inr ([spice_mouse_mode True, SDL_SetRelativeMouseMode True], False,
          ev_st\<lparr> serverMode := True \<rparr>)"
    by (simp add: handle_event_def sync_init_def sync_window_def event_switch_def toggle_def
        ev_st_def Let_def)
  obtain t1 st1 t2 st2 where
    a: "handle_event [0, 0x29, 0x02] (\<lambda>a. True) hdr0 toggle ev_st = Inr (t1, False, st1)"
    and b: "handle_event [0, 0x29, 0x02] (\<lambda>a. True) hdr_m toggle st1 = Inr (t2, False, st2)"
    and c: "serverMode st2 = serverMode ev_st"
    and d: "started ev_st \<and> \<not> serverMode ev_st \<longrightarrow>
         serverMode st1 \<and>
         t2 = [spice_mouse_mode False, SDL_SetRelativeMouseMode False,
               SDL_WarpMouseInWindow (mouseX hdr_m) (mouseY hdr_m)] \<and>
         local_mouseX st2 = mouseX hdr_m \<and> local_mouseY st2 = mouseY hdr_m"
    using toggle_twice_restores_mode [where tbl = "[0, 0x29, 0x02]" and ok = "\<lambda>a. True"
        and ?shm1.0 = hdr0 and st = ev_st and ?shm2.0 = hdr_m
        and ev = "SDL_KEYUP SDL_SCANCODE_SCROLLLOCK" and shm = hdr0 and t = "[]" and b = False
        and st' = ev_st]
    by blast
  have st1: "st1 = ev_st\<lparr> serverMode := True \<rparr>" using a 1 by simp
  have t2: "t2 = [spice_mouse_mode False, SDL_SetRelativeMouseMode False,
               SDL_WarpMouseInWindow 10 20]"
    using d by (simp add: ev_st_def hdr_m_def)
  have "st2 = ev_st\<lparr> local_mouseX := 10, local_mouseY := 20 \<rparr>"
    using b unfolding st1
    by (simp add: handle_event_def sync_init_def sync_window_def event_switch_def toggle_def
        ev_st_def hdr_m_def Let_def)
  moreover have "handle_event [0, 0x29, 0x02] (\<lambda>a. True) hdr0
      (SDL_KEYUP SDL_SCANCODE_SCROLLLOCK) ev_st = Inr ([], False, ev_st)"
    by (simp add: handle_event_def sync_init_def sync_window_def event_switch_def ev_st_def)
  moreover have "started ev_st \<and> \<not> serverMode ev_st" by (simp add: ev_st_def)
  ultimately show ?thesis using 1 b st1 t2 by simp
qed

end
